theory Spec2Isabelle
  imports Complex_Main "HOL-Library.Log_Nat"
begin

section \<open>Numbers\<close>

text \<open>
  A number of the source language is a double: NaN, an infinity, negative zero, or a
  finite value, held exactly as a rational (\<open>Finite 0\<close> is positive zero). Arithmetic
  computes the exact result and rounds it to the nearest double, ties to the even
  mantissa: \<open>exponent q\<close> is the \<open>e\<close> with \<open>2 ^ e \<le> \<bar>q\<bar> < 2 ^ (e + 1)\<close>, the spacing of
  the doubles around \<open>q\<close> is \<open>2 ^ (e - 52)\<close> (with \<open>e\<close> at least \<open>- 1022\<close>, the subnormal
  range), and a result of magnitude \<open>2 ^ 1024\<close> or more overflows to an infinity.
\<close>

datatype jsnum = NaN | PosInfinity | NegInfinity | NegZero | Finite rat

definition two_pow :: "int \<Rightarrow> rat" where
  "two_pow e = (if 0 \<le> e then 2 ^ nat e else 1 / 2 ^ nat (- e))"

definition exponent :: "rat \<Rightarrow> int" where
  "exponent q =
     (if 1 \<le> \<bar>q\<bar> then bitlen \<lfloor>\<bar>q\<bar>\<rfloor> - 1 else - bitlen (\<lceil>1 / \<bar>q\<bar>\<rceil> - 1))"

definition round_half_even :: "rat \<Rightarrow> int" where
  "round_half_even x =
     (let f = \<lfloor>x\<rfloor>; d = x - of_int f
      in if d < 1 / 2 then f else if 1 / 2 < d then f + 1 else if even f then f else f + 1)"

definition round_double :: "rat \<Rightarrow> jsnum" where
  "round_double q =
     (let e = max (exponent q) (- 1022);
          ulp = two_pow (e - 52);
          v = of_int (round_half_even (q / ulp)) * ulp
      in if 2 ^ 1024 \<le> \<bar>v\<bar> then (if 0 < q then PosInfinity else NegInfinity)
         else if v = 0 then (if 0 < q then Finite 0 else NegZero)
         else Finite v)"

fun js_neg :: "jsnum \<Rightarrow> jsnum" where
  "js_neg NaN = NaN"
| "js_neg PosInfinity = NegInfinity"
| "js_neg NegInfinity = PosInfinity"
| "js_neg NegZero = Finite 0"
| "js_neg (Finite q) = (if q = 0 then NegZero else Finite (- q))"

text \<open>Addition; an exact sum of zero is positive zero. Subtraction adds the negation.\<close>

fun js_add :: "jsnum \<Rightarrow> jsnum \<Rightarrow> jsnum" where
  "js_add NaN y = NaN"
| "js_add x NaN = NaN"
| "js_add PosInfinity NegInfinity = NaN"
| "js_add NegInfinity PosInfinity = NaN"
| "js_add PosInfinity y = PosInfinity"
| "js_add x PosInfinity = PosInfinity"
| "js_add NegInfinity y = NegInfinity"
| "js_add x NegInfinity = NegInfinity"
| "js_add NegZero y = y"
| "js_add x NegZero = x"
| "js_add (Finite a) (Finite b) = (if a + b = 0 then Finite 0 else round_double (a + b))"

definition js_sub :: "jsnum \<Rightarrow> jsnum \<Rightarrow> jsnum" where
  "js_sub x y = js_add x (js_neg y)"

section \<open>The shared counter store (store.ts)\<close>

text \<open>
  The store holds \<open>count\<close>, a number, and \<open>text\<close>. The field \<open>text\<close> is written
  \<open>text'\<close>, since \<open>text\<close> is a keyword here.

  The library's \<open>set\<close> takes a function from the current state to a partial state and
  merges the result into the state: a field the partial state does not mention keeps
  its value.
\<close>

record store =
  count :: jsnum
  text' :: string

record store_patch =
  count_patch :: "jsnum option"
  text_patch :: "string option"

definition merge_patch :: "store \<Rightarrow> store_patch \<Rightarrow> store" where
  "merge_patch state p =
     \<lparr> count = (case count_patch p of None \<Rightarrow> count state | Some c \<Rightarrow> c),
       text' = (case text_patch p of None \<Rightarrow> text' state | Some t \<Rightarrow> t) \<rparr>"

definition set_state :: "(store \<Rightarrow> store_patch) \<Rightarrow> store \<Rightarrow> store" where
  "set_state f state = merge_patch state (f state)"

definition useStore :: store where
  "useStore = \<lparr> count = Finite 0, text' = '''' \<rparr>"

definition increment :: "store \<Rightarrow> store" where
  "increment =
     set_state (\<lambda>state. \<lparr> count_patch = Some (js_add (count state) (Finite 1)), text_patch = None \<rparr>)"

definition decrement :: "store \<Rightarrow> store" where
  "decrement =
     set_state (\<lambda>state. \<lparr> count_patch = Some (js_sub (count state) (Finite 1)), text_patch = None \<rparr>)"

definition setText :: "string \<Rightarrow> store \<Rightarrow> store" where
  "setText t = set_state (\<lambda>state. \<lparr> count_patch = None, text_patch = Some t \<rparr>)"

text \<open>The three actions of the store, and a run of several of them from a state.\<close>

datatype store_action = Increment | Decrement | SetText string

fun apply_action :: "store_action \<Rightarrow> store \<Rightarrow> store" where
  "apply_action Increment s = increment s"
| "apply_action Decrement s = decrement s"
| "apply_action (SetText t) s = setText t s"

fun run_actions :: "store_action list \<Rightarrow> store \<Rightarrow> store" where
  "run_actions [] s = s"
| "run_actions (a # acts) s = run_actions acts (apply_action a s)"

section \<open>Form values and messages\<close>

text \<open>
  A form value is a string, a number, a boolean or \<open>null\<close>; a field without a value
  (\<open>undefined\<close>) is a key the map does not have.
\<close>

datatype jsval = Str string | Num jsnum | Bool bool | Null

type_synonym form_values = "string \<rightharpoonup> jsval"

text \<open>
  A message is either one the source gives (\<open>Message\<close>) or one of the validation
  library's defaults, named by the issue that produces it.
\<close>

datatype message =
    Message string
  | Required
  | Expected_other_type
  | Invalid_enum_value
  | Invalid_literal
  | Expected_integer

type_synonym field_errors = "string \<rightharpoonup> message"

section \<open>The runtime: the clock, date parsing and the e-mail pattern\<close>

text \<open>
  \<open>calculateAge\<close> reads a date through \<open>getFullYear\<close>, \<open>getMonth\<close> (0 to 11) and
  \<open>getDate\<close>. The \<open>Date\<close> constructor and the validation library's e-mail pattern are
  not part of the repository; they are parameters: \<open>newDate s\<close> is the date
  \<open>new Date(s)\<close> as the three getters read it, or \<open>None\<close> for an invalid date (whose
  getters return NaN), \<open>today\<close> is \<open>new Date()\<close>, and \<open>emailRegex\<close> is the test
  \<open>.email()\<close> applies.
\<close>

record jsdate =
  getFullYear :: int
  getMonth :: int
  getDate :: int

record runtime =
  emailRegex :: "string \<Rightarrow> bool"
  newDate :: "string \<Rightarrow> jsdate option"
  today :: jsdate

text \<open>A number that may be NaN (\<open>None\<close>); a comparison with NaN is false.\<close>

definition js_ge :: "int option \<Rightarrow> int \<Rightarrow> bool" where
  "js_ge a n = (case a of None \<Rightarrow> False | Some m \<Rightarrow> n \<le> m)"

definition Math_abs :: "int option \<Rightarrow> int option" where
  "Math_abs a = map_option abs a"

definition calculateAge :: "runtime \<Rightarrow> string \<Rightarrow> int option" where
  "calculateAge rt birthdate =
     (case newDate rt birthdate of
        None \<Rightarrow> None
      | Some birthDate \<Rightarrow>
          (let age0 = getFullYear (today rt) - getFullYear birthDate;
               monthDifference = getMonth (today rt) - getMonth birthDate
           in if monthDifference < 0
                 \<or> (monthDifference = 0 \<and> getDate (today rt) < getDate birthDate)
              then Some (age0 - 1) else Some age0))"

section \<open>The schema language\<close>

text \<open>
  The schemas of the two forms are built from the validation library's combinators.
  Parsing a value with a schema returns \<open>OK v\<close>, \<open>DIRTY v\<close> (a value with issues) or
  \<open>INVALID\<close> (aborted), together with the issues it added, in order.
\<close>

datatype string_check = nonempty message | email message

datatype number_check = positive message | isInt

datatype zod =
    ZodString "string_check list"
  | ZodNumber "number_check list"
  | ZodBoolean
  | ZodEnum "string list" "message option"
  | ZodLiteral jsval
  | ZodOptional zod
  | ZodDefault zod jsval
  | ZodEffects zod "jsval option \<Rightarrow> bool" message

datatype 'a parse_return = OK 'a | DIRTY 'a | INVALID

definition invalid_type :: "jsval option \<Rightarrow> message" where
  "invalid_type d = (case d of None \<Rightarrow> Required | Some _ \<Rightarrow> Expected_other_type)"

definition with_errorMap :: "message option \<Rightarrow> message \<Rightarrow> message" where
  "with_errorMap errorMap dflt = (case errorMap of None \<Rightarrow> dflt | Some m \<Rightarrow> m)"

fun run_string_check :: "runtime \<Rightarrow> string \<Rightarrow> string_check \<Rightarrow> message list" where
  "run_string_check rt s (nonempty m) = (if length s < 1 then [m] else [])"
| "run_string_check rt s (email m) = (if emailRegex rt s then [] else [m])"

fun Number_isInteger :: "jsnum \<Rightarrow> bool" where
  "Number_isInteger (Finite q) = (of_int (floor q) = q)"
| "Number_isInteger NegZero = True"
| "Number_isInteger _ = False"

fun le_zero :: "jsnum \<Rightarrow> bool" where
  "le_zero (Finite q) = (q \<le> 0)"
| "le_zero NegInfinity = True"
| "le_zero NegZero = True"
| "le_zero _ = False"

fun run_number_check :: "jsnum \<Rightarrow> number_check \<Rightarrow> message list" where
  "run_number_check n (positive m) = (if le_zero n then [m] else [])"
| "run_number_check n isInt = (if Number_isInteger n then [] else [Expected_integer])"

definition checked :: "jsval option \<Rightarrow> message list \<Rightarrow> jsval option parse_return \<times> message list" where
  "checked d issues = (if issues = [] then OK d else DIRTY d, issues)"

fun parse :: "runtime \<Rightarrow> zod \<Rightarrow> jsval option \<Rightarrow> jsval option parse_return \<times> message list" where
  "parse rt (ZodString checks) d =
     (case d of
        Some (Str s) \<Rightarrow> checked d (concat (map (run_string_check rt s) checks))
      | _ \<Rightarrow> (INVALID, [invalid_type d]))"
| "parse rt (ZodNumber checks) d =
     (case d of
        Some (Num n) \<Rightarrow>
          (if n = NaN then (INVALID, [Expected_other_type])
           else checked d (concat (map (run_number_check n) checks)))
      | _ \<Rightarrow> (INVALID, [invalid_type d]))"
| "parse rt ZodBoolean d =
     (case d of
        Some (Bool b) \<Rightarrow> (OK d, [])
      | _ \<Rightarrow> (INVALID, [invalid_type d]))"
| "parse rt (ZodEnum options errorMap) d =
     (case d of
        Some (Str s) \<Rightarrow>
          (if s \<in> set options then (OK d, [])
           else (INVALID, [with_errorMap errorMap Invalid_enum_value]))
      | _ \<Rightarrow> (INVALID, [with_errorMap errorMap (invalid_type d)]))"
| "parse rt (ZodLiteral v) d =
     (if d = Some v then (OK d, []) else (INVALID, [Invalid_literal]))"
| "parse rt (ZodOptional inner) d =
     (if d = None then (OK None, []) else parse rt inner d)"
| "parse rt (ZodDefault inner dflt) d =
     parse rt inner (if d = None then Some dflt else d)"
| "parse rt (ZodEffects inner refinement m) d =
     (case parse rt inner d of
        (INVALID, issues) \<Rightarrow> (INVALID, issues)
      | (DIRTY v, issues) \<Rightarrow>
          (if refinement v then (DIRTY v, issues) else (DIRTY v, issues @ [m]))
      | (OK v, issues) \<Rightarrow>
          (if refinement v then (OK v, issues) else (DIRTY v, issues @ [m])))"

text \<open>A schema is required when it is not wrapped to accept a missing value.\<close>

fun required :: "zod \<Rightarrow> bool" where
  "required (ZodOptional inner) = False"
| "required (ZodDefault inner dflt) = False"
| "required (ZodEffects inner refinement m) = required inner"
| "required _ = True"

text \<open>A schema that never replaces a missing value by a default.\<close>

fun no_default :: "zod \<Rightarrow> bool" where
  "no_default (ZodDefault inner dflt) = False"
| "no_default (ZodOptional inner) = no_default inner"
| "no_default (ZodEffects inner refinement m) = no_default inner"
| "no_default _ = True"

text \<open>
  An object schema is its shape: the keys in declaration order, each with its schema.
  Every key is parsed, then the results are merged: the object is \<open>INVALID\<close> when a key
  aborted, and the issues of all keys are kept, each under its key.
\<close>

type_synonym shape = "(string \<times> zod) list"

fun mergeObjectSync ::
  "bool \<Rightarrow> form_values \<Rightarrow> (string \<times> jsval option parse_return) list \<Rightarrow> form_values parse_return" where
  "mergeObjectSync is_dirty finalObject [] = (if is_dirty then DIRTY finalObject else OK finalObject)"
| "mergeObjectSync is_dirty finalObject ((key, INVALID) # pairs) = INVALID"
| "mergeObjectSync is_dirty finalObject ((key, DIRTY v) # pairs) =
     mergeObjectSync True (finalObject(key := v)) pairs"
| "mergeObjectSync is_dirty finalObject ((key, OK v) # pairs) =
     mergeObjectSync is_dirty (finalObject(key := v)) pairs"

fun object_issues :: "runtime \<Rightarrow> shape \<Rightarrow> form_values \<Rightarrow> (string \<times> message) list" where
  "object_issues rt [] data = []"
| "object_issues rt ((key, s) # shape) data =
     map (Pair key) (snd (parse rt s (data key))) @ object_issues rt shape data"

definition ZodObject_parse ::
  "runtime \<Rightarrow> shape \<Rightarrow> form_values \<Rightarrow> form_values parse_return \<times> (string \<times> message) list" where
  "ZodObject_parse rt shape data =
     (mergeObjectSync False Map.empty (map (\<lambda>(key, s). (key, fst (parse rt s (data key)))) shape),
      object_issues rt shape data)"

text \<open>
  The resolver turns the issues into field errors: for each issue in order, the message
  is stored under the issue's key unless the key already has one.
\<close>

fun parseErrorSchema :: "(string \<times> message) list \<Rightarrow> field_errors \<Rightarrow> field_errors" where
  "parseErrorSchema [] errors = errors"
| "parseErrorSchema ((path, m) # zodErrors) errors =
     parseErrorSchema zodErrors (if errors path = None then errors(path \<mapsto> m) else errors)"

datatype validation_result = Valid form_values | Invalid field_errors

definition zodResolver :: "runtime \<Rightarrow> shape \<Rightarrow> form_values \<Rightarrow> validation_result" where
  "zodResolver rt shape values =
     (case ZodObject_parse rt shape values of
        (OK data, issues) \<Rightarrow> Valid data
      | (_, issues) \<Rightarrow> Invalid (parseErrorSchema issues Map.empty))"

section \<open>The two schemas\<close>

text \<open>The schema of ReactHookFormExample.tsx.\<close>

definition schema_date_of_birth :: "runtime \<Rightarrow> zod" where
  "schema_date_of_birth rt =
     ZodEffects (ZodString [])
       (\<lambda>v. case v of Some (Str birthdate) \<Rightarrow> js_ge (calculateAge rt birthdate) 18 | _ \<Rightarrow> False)
       (Message ''You must be at least 18 years old'')"

definition schema :: "runtime \<Rightarrow> shape" where
  "schema rt =
     [(''name'', ZodString [nonempty (Message ''Name is required'')]),
      (''email'', ZodString [email (Message ''Invalid email format'')]),
      (''date_of_birth'', schema_date_of_birth rt),
      (''age'', ZodOptional (ZodNumber [positive (Message ''Age must be a positive number''), isInt])),
      (''gender'', ZodOptional (ZodEnum [''male'', ''female''] None)),
      (''termsAccepted'',
         ZodEffects ZodBoolean (\<lambda>val. val = Some (Bool True))
           (Message ''You must accept the terms and conditions'')),
      (''privacyPolicyAccepted'',
         ZodEffects ZodBoolean (\<lambda>val. val = Some (Bool True))
           (Message ''You must accept the Privacy Policy'')),
      (''privacySetting'',
         ZodEnum [''public'', ''private'', ''protected'']
           (Some (Message ''Select a valid privacy option'')))]"

definition validate :: "runtime \<Rightarrow> form_values \<Rightarrow> validation_result" where
  "validate rt values = zodResolver rt (schema rt) values"

text \<open>
  The schema of the privacy-settings form (formSchemas.ts in the refactoring notes). Its
  birth-date rule compares the absolute difference of the two calendar years with 18.
\<close>

definition privacySettingsSchema_birthDate :: "runtime \<Rightarrow> zod" where
  "privacySettingsSchema_birthDate rt =
     ZodEffects (ZodString [])
       (\<lambda>v. case v of
              Some (Str date) \<Rightarrow>
                (let age0 = Math_abs (map_option (\<lambda>d. getFullYear (today rt) - getFullYear d) (newDate rt date))
                 in js_ge age0 18)
            | _ \<Rightarrow> False)
       (Message ''Age must be 18 or older'')"

definition privacySettingsSchema :: "runtime \<Rightarrow> shape" where
  "privacySettingsSchema rt =
     [(''name'', ZodString [nonempty (Message ''Name is required'')]),
      (''email'', ZodString [email (Message ''Invalid email format'')]),
      (''birthDate'', privacySettingsSchema_birthDate rt),
      (''privacy'', ZodDefault (ZodEnum [''public'', ''private'', ''protected''] None) (Str ''public'')),
      (''termsAccepted'',
         ZodEffects (ZodLiteral (Bool True)) (\<lambda>v. v = Some (Bool True))
           (Message ''You must accept the terms and conditions''))]"

section \<open>The form state controller\<close>

text \<open>
  The state of a form: the default values it was created with, the current values and
  the field errors. Two traces make the effects visible: \<open>network\<close> holds the requests
  sent and \<open>console\<close> the lines logged, oldest first. The registration form has one
  more piece of state, \<open>emailTaken\<close> (\<open>None\<close> is \<open>null\<close>).

  The body of the registration form builds \<open>checkEmailAvailability\<close> with
  \<open>debounce(..., 1000)\<close> each time it runs, that is on every render. \<open>debounced\<close>
  numbers the debounced function the current render holds. \<open>timers\<close> lists the pending
  trailing calls, in the order they fall due: for each debounced function that has been
  called and has not fired yet, its number, the time it is due (1000 ms after its last
  call) and the argument of its last call. Times are in milliseconds.
\<close>

datatype request = GET string | POST form_values

datatype logged = Data form_values | Text string

datatype log_entry = Log string logged

datatype 'a promise = Resolved 'a | Rejected string

record form_state =
  defaultValues :: form_values
  formValues :: form_values
  errors :: field_errors
  network :: "request list"
  console :: "log_entry list"

record example_state = form_state +
  emailTaken :: "bool option"
  debounced :: nat
  timers :: "(nat \<times> nat \<times> string) list"

definition useForm :: "form_values \<Rightarrow> form_state" where
  "useForm dflts =
     \<lparr> defaultValues = dflts, formValues = dflts, errors = Map.empty, network = [], console = [] \<rparr>"

definition setValue :: "string \<Rightarrow> jsval \<Rightarrow> 'a form_state_scheme \<Rightarrow> 'a form_state_scheme" where
  "setValue field v st = st\<lparr> formValues := (formValues st)(field \<mapsto> v) \<rparr>"

definition reset :: "'a form_state_scheme \<Rightarrow> 'a form_state_scheme" where
  "reset st = st\<lparr> formValues := defaultValues st, errors := Map.empty \<rparr>"

definition console_log :: "string \<Rightarrow> logged \<Rightarrow> 'a form_state_scheme \<Rightarrow> 'a form_state_scheme" where
  "console_log label x st = st\<lparr> console := console st @ [Log label x] \<rparr>"

definition send :: "request \<Rightarrow> 'a form_state_scheme \<Rightarrow> 'a form_state_scheme" where
  "send r st = st\<lparr> network := network st @ [r] \<rparr>"

text \<open>
  \<open>handleSubmit\<close> runs the resolver on the current values. With errors it stores them and
  stops; without, it clears the errors and calls the submit handler with the parsed data.
\<close>

definition handleSubmit ::
  "(form_values \<Rightarrow> validation_result) \<Rightarrow> (form_values \<Rightarrow> 'a form_state_scheme \<Rightarrow> 'a form_state_scheme)
   \<Rightarrow> 'a form_state_scheme \<Rightarrow> 'a form_state_scheme" where
  "handleSubmit resolver onValid st =
     (case resolver (formValues st) of
        Invalid es \<Rightarrow> st\<lparr> errors := es \<rparr>
      | Valid data \<Rightarrow> onValid data (st\<lparr> errors := Map.empty \<rparr>))"

text \<open>
  \<open>register\<close> ties an input to a field. When the input is mounted, a field without a
  value takes its default, or without a default the value the blank input reads.
\<close>

definition register :: "string \<Rightarrow> jsval \<Rightarrow> 'a form_state_scheme \<Rightarrow> 'a form_state_scheme" where
  "register field blank st =
     (case formValues st field of
        Some v \<Rightarrow> st
      | None \<Rightarrow>
          (case defaultValues st field of
             Some d \<Rightarrow> setValue field d st
           | None \<Rightarrow> setValue field blank st))"

fun register_all :: "(string \<times> jsval) list \<Rightarrow> 'a form_state_scheme \<Rightarrow> 'a form_state_scheme" where
  "register_all [] st = st"
| "register_all ((field, blank) # inputs) st = register_all inputs (register field blank st)"

subsection \<open>ReactHookFormExample\<close>

text \<open>
  The inputs the component renders with \<open>register\<close>, in the order of the markup, each
  with the value its blank element reads: the empty string for a text box, a date box
  and a select, NaN for the number box (\<open>valueAsNumber\<close>), \<open>false\<close> for a check box and
  \<open>null\<close> for a radio group with nothing checked.
\<close>

definition registered_inputs :: "(string \<times> jsval) list" where
  "registered_inputs =
     [(''name'', Str ''''), (''email'', Str ''''), (''date_of_birth'', Str ''''),
      (''age'', Num NaN), (''gender'', Str ''''), (''termsAccepted'', Bool False),
      (''privacyPolicyAccepted'', Bool False), (''privacySetting'', Null)]"

text \<open>The component once mounted: the form is created, then its inputs are registered.\<close>

definition ReactHookFormExample :: example_state where
  "ReactHookFormExample =
     register_all registered_inputs
       (form_state.extend (useForm [''privacySetting'' \<mapsto> Str ''public''])
          \<lparr> emailTaken = None, debounced = 0, timers = [] \<rparr>)"

text \<open>
  \<open>onSubmit\<close>: the gateway is the parameter \<open>axios_post\<close>, which tells how the request
  for the given data settles.
\<close>

definition onSubmit :: "(form_values \<Rightarrow> string promise) \<Rightarrow> form_values \<Rightarrow> example_state \<Rightarrow> example_state" where
  "onSubmit axios_post data st =
     (let st1 = console_log ''Form Data after submission:'' (Data data) st;
          st2 = send (POST data) st1
      in case axios_post data of
           Resolved response \<Rightarrow> reset (console_log ''Response:'' (Text response) st2)
         | Rejected error \<Rightarrow> console_log ''Error submitting form:'' (Text error) st2)"

definition submit :: "runtime \<Rightarrow> (form_values \<Rightarrow> string promise) \<Rightarrow> example_state \<Rightarrow> example_state" where
  "submit rt axios_post = handleSubmit (validate rt) (onSubmit axios_post)"

text \<open>
  The availability lookup, in its two steps: the request leaves, and later it settles.
  A resolved lookup carries \<open>response.data.isAvailable\<close>.
\<close>

definition checkEmailAvailability_request :: "string \<Rightarrow> example_state \<Rightarrow> example_state" where
  "checkEmailAvailability_request email_value st = send (GET email_value) st"

definition checkEmailAvailability_settled :: "bool promise \<Rightarrow> example_state \<Rightarrow> example_state" where
  "checkEmailAvailability_settled r st =
     (case r of
        Resolved isAvailable \<Rightarrow> st\<lparr> emailTaken := Some (\<not> isAvailable) \<rparr>
      | Rejected error \<Rightarrow> console_log ''Error checking email availability:'' (Text error) st)"

text \<open>
  Lookups settle one at a time. A settlement is written with the number of its lookup in
  issuance order; the handler does not see that number.
\<close>

fun settle_all :: "(nat \<times> bool promise) list \<Rightarrow> example_state \<Rightarrow> example_state" where
  "settle_all [] st = st"
| "settle_all ((issued, r) # rest) st = settle_all rest (checkEmailAvailability_settled r st)"

text \<open>The value of the last resolved lookup in completion order, if any.\<close>

fun last_resolved :: "(nat \<times> bool promise) list \<Rightarrow> bool option" where
  "last_resolved [] = None"
| "last_resolved ((issued, r) # rest) =
     (case last_resolved rest of
        Some a \<Rightarrow> Some a
      | None \<Rightarrow> (case r of Resolved a \<Rightarrow> Some a | Rejected error \<Rightarrow> None))"

text \<open>
  The specification's reading, for comparison: last write wins by issuance order, so
  the state shows the result of the settled lookup with the greatest issuance number.
\<close>

fun latest_issued :: "(nat \<times> bool promise) list \<Rightarrow> (nat \<times> bool promise) option" where
  "latest_issued [] = None"
| "latest_issued (c # cs) =
     (case latest_issued cs of
        None \<Rightarrow> Some c
      | Some d \<Rightarrow> (if fst c < fst d then Some d else Some c))"

definition spec_emailTaken :: "(nat \<times> bool promise) list \<Rightarrow> bool option" where
  "spec_emailTaken cs =
     (case latest_issued cs of
        Some (issued, Resolved isAvailable) \<Rightarrow> Some (\<not> isAvailable)
      | _ \<Rightarrow> None)"

text \<open>
  Debouncing. A call of the debounced function replaces the pending call of that same
  function, and is due 1000 ms later. When time has passed, the pending calls that are
  due fire: each sends its lookup. A render gives the component a new debounced
  function, while the pending calls of the earlier ones stay scheduled, and registers
  the inputs again.
\<close>

definition render :: "example_state \<Rightarrow> example_state" where
  "render st = register_all registered_inputs (st\<lparr> debounced := debounced st + 1 \<rparr>)"

definition checkEmailAvailability :: "nat \<Rightarrow> string \<Rightarrow> example_state \<Rightarrow> example_state" where
  "checkEmailAvailability now email_value st =
     st\<lparr> timers := filter (\<lambda>(f, due, arg). f \<noteq> debounced st) (timers st)
                      @ [(debounced st, now + 1000, email_value)] \<rparr>"

definition handleEmailChange :: "nat \<Rightarrow> string \<Rightarrow> example_state \<Rightarrow> example_state" where
  "handleEmailChange now email_value st =
     checkEmailAvailability now email_value (setValue ''email'' (Str email_value) st)"

definition run_timers :: "nat \<Rightarrow> example_state \<Rightarrow> example_state" where
  "run_timers now st =
     fold (\<lambda>(f, due, arg). checkEmailAvailability_request arg)
       (filter (\<lambda>(f, due, arg). due \<le> now) (timers st))
       (st\<lparr> timers := filter (\<lambda>(f, due, arg). \<not> due \<le> now) (timers st) \<rparr>)"

text \<open>
  What happens to the component, each with the time it happens: the user changes the
  e-mail field, a lookup settles, or nothing but time passing. A resolved lookup that
  changes \<open>emailTaken\<close> makes the component render again.
\<close>

datatype event = Change string | Settled "bool promise" | Idle

fun step :: "nat \<times> event \<Rightarrow> example_state \<Rightarrow> example_state" where
  "step (now, Change v) st = handleEmailChange now v (run_timers now st)"
| "step (now, Settled r) st =
     (let st1 = run_timers now st;
          st2 = checkEmailAvailability_settled r st1
      in if emailTaken st2 = emailTaken st1 then st2 else render st2)"
| "step (now, Idle) st = run_timers now st"

fun run_events :: "(nat \<times> event) list \<Rightarrow> example_state \<Rightarrow> example_state" where
  "run_events [] st = st"
| "run_events (e # es) st = run_events es (step e st)"

text \<open>
  The operations of the controller on the registration form, and a run of several of
  them from a state. \<open>SetField\<close> is \<open>setValue\<close>; for the e-mail field the source also
  schedules the availability lookup, which does not touch the form values. A submission
  and a reset change the form state, so the component renders again after them.
\<close>

datatype operation = SetField string jsval | HandleSubmit | Reset

fun apply_operation ::
  "runtime \<Rightarrow> (form_values \<Rightarrow> string promise) \<Rightarrow> operation \<Rightarrow> example_state \<Rightarrow> example_state" where
  "apply_operation rt axios_post (SetField field v) st = setValue field v st"
| "apply_operation rt axios_post HandleSubmit st = render (submit rt axios_post st)"
| "apply_operation rt axios_post Reset st = render (reset st)"

fun run_operations ::
  "runtime \<Rightarrow> (form_values \<Rightarrow> string promise) \<Rightarrow> operation list \<Rightarrow> example_state \<Rightarrow> example_state" where
  "run_operations rt axios_post [] st = st"
| "run_operations rt axios_post (op # ops) st =
     run_operations rt axios_post ops (apply_operation rt axios_post op st)"

fun sets_declared_field :: "runtime \<Rightarrow> operation \<Rightarrow> bool" where
  "sets_declared_field rt (SetField field v) = (field \<in> set (map fst (schema rt)))"
| "sets_declared_field rt _ = True"

subsection \<open>PrivacySettingsForm\<close>

definition PrivacySettingsForm :: form_state where
  "PrivacySettingsForm = useForm [''privacy'' \<mapsto> Str ''public'']"

definition PrivacySettingsForm_onSubmit ::
  "(form_values \<Rightarrow> string promise) \<Rightarrow> form_values \<Rightarrow> form_state \<Rightarrow> form_state" where
  "PrivacySettingsForm_onSubmit submitPrivacySettings data st =
     (let st1 = send (POST data) st
      in case submitPrivacySettings data of
           Resolved response \<Rightarrow> console_log ''Form submitted successfully'' (Text response) st1
         | Rejected error \<Rightarrow> console_log ''Submission failed'' (Text error) st1)"

definition PrivacySettingsForm_submit ::
  "runtime \<Rightarrow> (form_values \<Rightarrow> string promise) \<Rightarrow> form_state \<Rightarrow> form_state" where
  "PrivacySettingsForm_submit rt submitPrivacySettings =
     handleSubmit (zodResolver rt (privacySettingsSchema rt)) (PrivacySettingsForm_onSubmit submitPrivacySettings)"

section \<open>Fixtures for the worked examples\<close>

text \<open>
  A runtime whose clock reads 15 June 2024 (month 5), whose e-mail test asks for an
  \<open>@\<close>, and whose date constructor knows four dates. Two gateways: one that accepts
  every request and one that refuses every request.
\<close>

definition stub_newDate :: "string \<Rightarrow> jsdate option" where
  "stub_newDate s =
     (if s = ''2000-01-01'' then Some \<lparr> getFullYear = 2000, getMonth = 0, getDate = 1 \<rparr>
      else if s = ''2006-06-15'' then Some \<lparr> getFullYear = 2006, getMonth = 5, getDate = 15 \<rparr>
      else if s = ''2006-06-16'' then Some \<lparr> getFullYear = 2006, getMonth = 5, getDate = 16 \<rparr>
      else if s = ''2006-12-31'' then Some \<lparr> getFullYear = 2006, getMonth = 11, getDate = 31 \<rparr>
      else None)"

definition stub_emailRegex :: "string \<Rightarrow> bool" where
  "stub_emailRegex s = (CHR ''@'' \<in> set s)"

definition stub_runtime :: runtime where
  "stub_runtime =
     \<lparr> emailRegex = stub_emailRegex, newDate = stub_newDate,
       today = \<lparr> getFullYear = 2024, getMonth = 5, getDate = 15 \<rparr> \<rparr>"

definition next_day :: jsdate where
  "next_day = \<lparr> getFullYear = 2024, getMonth = 5, getDate = 16 \<rparr>"

definition gateway_ok :: "form_values \<Rightarrow> string promise" where
  "gateway_ok data = Resolved ''created''"

definition gateway_down :: "form_values \<Rightarrow> string promise" where
  "gateway_down data = Rejected ''Network Error''"

definition alice :: form_values where
  "alice =
     [''name'' \<mapsto> Str ''Alice'', ''email'' \<mapsto> Str ''a@b.com'',
      ''date_of_birth'' \<mapsto> Str ''2000-01-01'', ''termsAccepted'' \<mapsto> Bool True,
      ''privacyPolicyAccepted'' \<mapsto> Bool True, ''privacySetting'' \<mapsto> Str ''public'']"

definition almost_adult :: form_values where
  "almost_adult = alice(''date_of_birth'' \<mapsto> Str ''2006-06-16'')"

definition alice_privacy :: form_values where
  "alice_privacy =
     [''name'' \<mapsto> Str ''Alice'', ''email'' \<mapsto> Str ''a@b.com'',
      ''birthDate'' \<mapsto> Str ''2000-01-01'', ''privacy'' \<mapsto> Str ''public'',
      ''termsAccepted'' \<mapsto> Bool True]"

section \<open>Properties of the schema validator\<close>

lemma parse_OK_iff: "parse rt s d = (r, issues) \<Longrightarrow> (\<exists>v. r = OK v) = (issues = [])"
proof (induction s arbitrary: d r issues)
  case (ZodEffects inner refinement m)
  obtain r' issues' where inner: "parse rt inner d = (r', issues')"
    by (cases "parse rt inner d")
  from ZodEffects.IH[OF inner] ZodEffects.prems inner show ?case
    by (cases r') (auto split: if_splits)
qed (auto simp: checked_def split: option.splits jsval.splits if_splits)

lemma parse_OK_iff_no_issues: "(\<exists>v. fst (parse rt s d) = OK v) = (snd (parse rt s d) = [])"
  using parse_OK_iff[of rt s d "fst (parse rt s d)" "snd (parse rt s d)"] by simp

lemma mergeObjectSync_OK_iff:
  "(\<exists>obj. mergeObjectSync b f ps = OK obj) = (\<not> b \<and> (\<forall>p \<in> set ps. \<exists>v. snd p = OK v))"
  by (induction b f ps rule: mergeObjectSync.induct) (auto simp: fun_upd_def)

lemma object_issues_empty_iff:
  "(object_issues rt shape v = []) = (\<forall>(key, s) \<in> set shape. snd (parse rt s (v key)) = [])"
  by (induction shape) auto

lemma ZodObject_parse_OK_iff:
  "(\<exists>obj. fst (ZodObject_parse rt shape v) = OK obj) = (snd (ZodObject_parse rt shape v) = [])"
  by (auto simp: ZodObject_parse_def mergeObjectSync_OK_iff object_issues_empty_iff
        parse_OK_iff_no_issues[symmetric] split: prod.splits)

lemma parseErrorSchema_lookup:
  "parseErrorSchema zodErrors errs k = (case errs k of Some m \<Rightarrow> Some m | None \<Rightarrow> map_of zodErrors k)"
  by (induction zodErrors arbitrary: errs) (auto split: option.splits)

lemma map_of_object_issues_notin:
  "key \<notin> fst ` set shape \<Longrightarrow> map_of (object_issues rt shape v) key = None"
  by (induction shape) (auto simp: map_add_def map_of_eq_None_iff image_iff split: option.splits)

lemma map_of_object_issues:
  "distinct (map fst shape) \<Longrightarrow> (key, s) \<in> set shape \<Longrightarrow>
   map_of (object_issues rt shape v) key =
     (case snd (parse rt s (v key)) of [] \<Rightarrow> None | m # ms \<Rightarrow> Some m)"
proof (induction shape)
  case Nil
  then show ?case by simp
next
  case (Cons p shape)
  obtain k t where p: "p = (k, t)" by (cases p)
  show ?case
  proof (cases "k = key")
    case True
    with Cons.prems p have st: "s = t" by (auto simp: image_iff)
    have "map_of (object_issues rt shape v) key = None"
      using Cons.prems p True by (intro map_of_object_issues_notin) auto
    then show ?thesis
      using p True st by (cases "snd (parse rt t (v key))") (auto simp: map_add_def)
  next
    case False
    then have "map_of (map (Pair k) (snd (parse rt t (v k)))) key = None"
      by (auto simp: map_of_eq_None_iff)
    then show ?thesis using Cons p False by (auto simp: map_add_def)
  qed
qed

lemma zodResolver_Invalid:
  "object_issues rt shape v \<noteq> [] \<Longrightarrow>
   zodResolver rt shape v = Invalid (parseErrorSchema (object_issues rt shape v) Map.empty)"
  using ZodObject_parse_OK_iff[of rt shape v]
  by (cases "fst (ZodObject_parse rt shape v)")
     (auto simp: zodResolver_def ZodObject_parse_def split: prod.splits)

lemma zodResolver_Valid:
  "object_issues rt shape v = [] \<Longrightarrow> \<exists>data. zodResolver rt shape v = Valid data"
  using ZodObject_parse_OK_iff[of rt shape v]
  by (auto simp: zodResolver_def ZodObject_parse_def split: prod.splits)

lemma zodResolver_Invalid_iff:
  "(\<exists>es. zodResolver rt shape v = Invalid es) =
   (\<exists>(key, s) \<in> set shape. snd (parse rt s (v key)) \<noteq> [])"
proof (cases "object_issues rt shape v = []")
  case True
  with zodResolver_Valid[OF True] show ?thesis
    by (auto simp: object_issues_empty_iff)
next
  case False
  with zodResolver_Invalid[OF False] show ?thesis
    by (auto simp: object_issues_empty_iff)
qed

lemma zodResolver_errors:
  assumes "zodResolver rt shape v = Invalid es" and "distinct (map fst shape)"
    and "(key, s) \<in> set shape"
  shows "es key = (case snd (parse rt s (v key)) of [] \<Rightarrow> None | m # ms \<Rightarrow> Some m)"
proof -
  have "object_issues rt shape v \<noteq> []"
    using assms(1) zodResolver_Valid[of rt shape v] by auto
  from zodResolver_Invalid[OF this] assms(1)
  have "es = parseErrorSchema (object_issues rt shape v) Map.empty" by simp
  then show ?thesis
    by (simp add: parseErrorSchema_lookup map_of_object_issues[OF assms(2,3)])
qed

lemma required_missing: "required s \<Longrightarrow> snd (parse rt s None) \<noteq> []"
  by (induction s) (auto split: prod.splits parse_return.splits)

lemma schema_keys_distinct: "distinct (map fst (schema rt))"
  by (simp add: schema_def)

lemma required_empty_string:
  "\<not> emailRegex rt '''' \<Longrightarrow> newDate rt '''' = None \<Longrightarrow> (key, s) \<in> set (schema rt) \<Longrightarrow>
   required s \<Longrightarrow> snd (parse rt s (Some (Str ''''))) \<noteq> []"
  unfolding schema_def
  by (auto simp: schema_date_of_birth_def calculateAge_def js_ge_def checked_def)

text \<open>
  Claim C1. \<open>validate\<close> returns \<open>Invalid\<close> exactly when at least one field of the schema
  produces an issue. The errors then hold, for every field of the schema, the first
  message of that field when it has issues and nothing when it has none: every failing
  field is reported, not only the first. A required field without a value always fails,
  so each missing required field has an entry; the same holds for a required field
  holding the empty string, when the e-mail pattern rejects the empty string and the
  empty string is not a date.
\<close>

theorem validate_collects_all_errors:
  "((\<exists>es. validate rt v = Invalid es) \<longleftrightarrow>
      (\<exists>(key, s) \<in> set (schema rt). snd (parse rt s (v key)) \<noteq> []))
   \<and> (\<forall>es. validate rt v = Invalid es \<longrightarrow>
         (\<forall>(key, s) \<in> set (schema rt).
            es key = (case snd (parse rt s (v key)) of [] \<Rightarrow> None | m # ms \<Rightarrow> Some m)))
   \<and> (\<forall>(key, s) \<in> set (schema rt). required s \<and> v key = None \<longrightarrow>
         (\<exists>es. validate rt v = Invalid es \<and> es key \<noteq> None))
   \<and> (\<not> emailRegex rt '''' \<and> newDate rt '''' = None \<longrightarrow>
         (\<forall>(key, s) \<in> set (schema rt). required s \<and> v key = Some (Str '''') \<longrightarrow>
            (\<exists>es. validate rt v = Invalid es \<and> es key \<noteq> None)))"
proof -
  have iff: "(\<exists>es. validate rt v = Invalid es) \<longleftrightarrow>
      (\<exists>(key, s) \<in> set (schema rt). snd (parse rt s (v key)) \<noteq> [])"
    unfolding validate_def by (rule zodResolver_Invalid_iff)
  have entries: "es key = (case snd (parse rt s (v key)) of [] \<Rightarrow> None | m # ms \<Rightarrow> Some m)"
    if "validate rt v = Invalid es" "(key, s) \<in> set (schema rt)" for es key s
    using that zodResolver_errors[OF _ schema_keys_distinct] by (simp add: validate_def)
  have failing: "\<exists>es. validate rt v = Invalid es \<and> es key \<noteq> None"
    if "(key, s) \<in> set (schema rt)" "snd (parse rt s (v key)) \<noteq> []" for key s
  proof -
    from that iff obtain es where es: "validate rt v = Invalid es" by blast
    from entries[OF es that(1)] that(2) have "es key \<noteq> None"
      by (cases "snd (parse rt s (v key))") auto
    with es show ?thesis by blast
  qed
  have missing: "\<exists>es. validate rt v = Invalid es \<and> es key \<noteq> None"
    if "(key, s) \<in> set (schema rt)" "required s" "v key = None" for key s
    using failing[OF that(1)] required_missing[OF that(2), of rt] that(3) by simp
  have empty: "\<exists>es. validate rt v = Invalid es \<and> es key \<noteq> None"
    if "\<not> emailRegex rt ''''" "newDate rt '''' = None"
       "(key, s) \<in> set (schema rt)" "required s" "v key = Some (Str '''')" for key s
    using failing[OF that(3)] required_empty_string[OF that(1,2,3,4)] that(5) by simp
  show ?thesis
  proof (intro conjI allI impI ballI)
    show "(\<exists>es. validate rt v = Invalid es) \<longleftrightarrow>
      (\<exists>(key, s) \<in> set (schema rt). snd (parse rt s (v key)) \<noteq> [])"
      by (rule iff)
  next
    fix es x
    assume a: "validate rt v = Invalid es" "x \<in> set (schema rt)"
    obtain key s where x: "x = (key, s)" by (cases x)
    from entries[OF a(1), of key s] a(2) x
    show "case x of (key, s) \<Rightarrow>
        es key = (case snd (parse rt s (v key)) of [] \<Rightarrow> None | m # ms \<Rightarrow> Some m)"
      by simp
  next
    fix x
    assume a: "x \<in> set (schema rt)"
    obtain key s where x: "x = (key, s)" by (cases x)
    from missing[of key s] a x
    show "case x of (key, s) \<Rightarrow> required s \<and> v key = None \<longrightarrow>
        (\<exists>es. validate rt v = Invalid es \<and> es key \<noteq> None)"
      by simp
  next
    fix x
    assume a: "\<not> emailRegex rt [] \<and> newDate rt [] = None" "x \<in> set (schema rt)"
    obtain key s where x: "x = (key, s)" by (cases x)
    from empty[of key s] a x
    show "case x of (key, s) \<Rightarrow> required s \<and> v key = Some (Str []) \<longrightarrow>
        (\<exists>es. validate rt v = Invalid es \<and> es key \<noteq> None)"
      by simp
  qed
qed

theorem validate_collects_all_errors_witness:
  "(\<exists>es. validate stub_runtime Map.empty = Invalid es
      \<and> es ''name'' = Some Required \<and> es ''email'' = Some Required
      \<and> es ''date_of_birth'' = Some Required \<and> es ''age'' = None \<and> es ''gender'' = None
      \<and> es ''termsAccepted'' = Some Required \<and> es ''privacyPolicyAccepted'' = Some Required
      \<and> es ''privacySetting'' = Some (Message ''Select a valid privacy option''))
   \<and> (\<exists>es. validate stub_runtime [''termsAccepted'' \<mapsto> Bool True] = Invalid es
      \<and> es ''name'' \<noteq> None)
   \<and> (\<exists>es. validate stub_runtime [''name'' \<mapsto> Str ''''] = Invalid es \<and> es ''name'' \<noteq> None)"
proof -
  note inst = validate_collects_all_errors[of stub_runtime Map.empty]
  have "\<exists>(key, s) \<in> set (schema stub_runtime). snd (parse stub_runtime s (Map.empty key)) \<noteq> []"
    by (simp add: schema_def invalid_type_def)
  with inst obtain es where es: "validate stub_runtime Map.empty = Invalid es" by blast
  with inst have "\<forall>(key, s) \<in> set (schema stub_runtime).
      es key = (case snd (parse stub_runtime s (Map.empty key)) of [] \<Rightarrow> None | m # ms \<Rightarrow> Some m)"
    by blast
  then have "es ''name'' = Some Required \<and> es ''email'' = Some Required
     \<and> es ''date_of_birth'' = Some Required \<and> es ''age'' = None \<and> es ''gender'' = None
     \<and> es ''termsAccepted'' = Some Required \<and> es ''privacyPolicyAccepted'' = Some Required
     \<and> es ''privacySetting'' = Some (Message ''Select a valid privacy option'')"
    by (simp add: schema_def schema_date_of_birth_def invalid_type_def with_errorMap_def)
  with es have first: "\<exists>es. validate stub_runtime Map.empty = Invalid es
      \<and> es ''name'' = Some Required \<and> es ''email'' = Some Required
      \<and> es ''date_of_birth'' = Some Required \<and> es ''age'' = None \<and> es ''gender'' = None
      \<and> es ''termsAccepted'' = Some Required \<and> es ''privacyPolicyAccepted'' = Some Required
      \<and> es ''privacySetting'' = Some (Message ''Select a valid privacy option'')"
    by blast
  have mem: "(''name'', ZodString [nonempty (Message ''Name is required'')]) \<in> set (schema stub_runtime)"
    by (simp add: schema_def)
  note missing = validate_collects_all_errors[of stub_runtime "[''termsAccepted'' \<mapsto> Bool True]",
      THEN conjunct2, THEN conjunct2, THEN conjunct1]
  from bspec[OF missing mem]
  have second: "\<exists>es. validate stub_runtime [''termsAccepted'' \<mapsto> Bool True] = Invalid es
      \<and> es ''name'' \<noteq> None"
    by simp
  have rt: "\<not> emailRegex stub_runtime '''' \<and> newDate stub_runtime '''' = None"
    by (simp add: stub_runtime_def stub_emailRegex_def stub_newDate_def)
  note empty = validate_collects_all_errors[of stub_runtime "[''name'' \<mapsto> Str '''']",
      THEN conjunct2, THEN conjunct2, THEN conjunct2]
  from bspec[OF mp[OF empty rt] mem]
  have third: "\<exists>es. validate stub_runtime [''name'' \<mapsto> Str ''''] = Invalid es \<and> es ''name'' \<noteq> None"
    by simp
  from first second third show ?thesis by (intro conjI)
qed

section \<open>Properties of the two age rules\<close>

lemma date_of_birth_issues:
  "snd (parse rt (schema_date_of_birth rt) (Some (Str s))) =
     (if js_ge (calculateAge rt s) 18 then [] else [Message ''You must be at least 18 years old''])"
  by (simp add: schema_date_of_birth_def checked_def)

text \<open>
  The age rule of the registration form. A birth-date string that is not a date is
  rejected. A birth date passes exactly when its 18th anniversary (same month and day,
  18 years later) is today or earlier: the age \<open>calculateAge\<close> computes is the year
  difference, less one when today's month and day come before the birth month and day.
\<close>

theorem date_of_birth_rule:
  "(newDate rt s = None \<longrightarrow> snd (parse rt (schema_date_of_birth rt) (Some (Str s))) \<noteq> [])
   \<and> (\<forall>b. newDate rt s = Some b \<longrightarrow>
         (snd (parse rt (schema_date_of_birth rt) (Some (Str s))) = [] \<longleftrightarrow>
            getFullYear b + 18 < getFullYear (today rt)
            \<or> (getFullYear b + 18 = getFullYear (today rt)
                \<and> (getMonth b < getMonth (today rt)
                    \<or> (getMonth b = getMonth (today rt) \<and> getDate b \<le> getDate (today rt))))))"
  unfolding date_of_birth_issues
  by (auto simp: calculateAge_def js_ge_def Let_def)

theorem date_of_birth_rule_witness:
  "snd (parse stub_runtime (schema_date_of_birth stub_runtime) (Some (Str ''2006-06-15''))) = []
   \<and> snd (parse stub_runtime (schema_date_of_birth stub_runtime) (Some (Str ''2006-06-16''))) \<noteq> []
   \<and> snd (parse stub_runtime (schema_date_of_birth stub_runtime) (Some (Str ''yesterday''))) \<noteq> []"
  using date_of_birth_rule[of stub_runtime "''2006-06-15''"]
    date_of_birth_rule[of stub_runtime "''2006-06-16''"]
    date_of_birth_rule[of stub_runtime "''yesterday''"]
  by (simp add: stub_runtime_def stub_newDate_def)

text \<open>
  Claim C2, evaluated. On 15 June 2024 a person born on 16 June 2006 is 17 years and 364
  days old: \<open>calculateAge\<close> gives 17 and the registration form rejects the date. The
  privacy-settings form accepts it, and also accepts 31 December 2006: its rule looks at
  the two calendar years only, so it does not reject every age below 18.
\<close>

theorem privacySettings_birthDate_accepts_minor:
  "calculateAge stub_runtime ''2006-06-16'' = Some 17
   \<and> snd (parse stub_runtime (schema_date_of_birth stub_runtime) (Some (Str ''2006-06-16'')))
       = [Message ''You must be at least 18 years old'']
   \<and> snd (parse stub_runtime (privacySettingsSchema_birthDate stub_runtime) (Some (Str ''2006-06-16''))) = []
   \<and> calculateAge stub_runtime ''2006-12-31'' = Some 17
   \<and> snd (parse stub_runtime (privacySettingsSchema_birthDate stub_runtime) (Some (Str ''2006-12-31''))) = []"
  by (simp add: schema_date_of_birth_def privacySettingsSchema_birthDate_def checked_def
        calculateAge_def js_ge_def Math_abs_def stub_runtime_def stub_newDate_def)

section \<open>Properties of registration\<close>

lemma register_fields:
  "defaultValues (register field blank st) = defaultValues st"
  "errors (register field blank st) = errors st"
  "network (register field blank st) = network st"
  "console (register field blank st) = console st"
  by (simp_all add: register_def setValue_def split: option.splits)

lemma register_example_fields:
  "emailTaken (register field blank st) = emailTaken st"
  "debounced (register field blank st) = debounced st"
  "timers (register field blank st) = timers st"
  by (simp_all add: register_def setValue_def split: option.splits)

lemma register_all_keeps_form:
  "defaultValues (register_all inputs st) = defaultValues st
   \<and> errors (register_all inputs st) = errors st
   \<and> network (register_all inputs st) = network st
   \<and> console (register_all inputs st) = console st"
  by (induction inputs arbitrary: st) (auto simp: register_fields)

lemma register_all_fields:
  "defaultValues (register_all inputs st) = defaultValues st"
  "errors (register_all inputs st) = errors st"
  "network (register_all inputs st) = network st"
  "console (register_all inputs st) = console st"
  using register_all_keeps_form[of inputs st] by simp_all

lemma register_all_keeps_example:
  "emailTaken (register_all inputs st) = emailTaken st
   \<and> debounced (register_all inputs st) = debounced st
   \<and> timers (register_all inputs st) = timers st"
  by (induction inputs arbitrary: st) (auto simp: register_example_fields)

lemma register_all_example_fields:
  "emailTaken (register_all inputs st) = emailTaken st"
  "debounced (register_all inputs st) = debounced st"
  "timers (register_all inputs st) = timers st"
  using register_all_keeps_example[of inputs st] by simp_all

lemma register_keeps_value:
  "formValues st field' = Some v \<Longrightarrow> formValues (register field blank st) field' = Some v"
  by (auto simp: register_def setValue_def split: option.splits)

lemma register_all_keeps_value:
  "formValues st field = Some v \<Longrightarrow> formValues (register_all inputs st) field = Some v"
proof (induction inputs arbitrary: st)
  case Nil
  then show ?case by simp
next
  case (Cons input inputs)
  obtain field' blank where input: "input = (field', blank)" by (cases input)
  from Cons.IH[OF register_keeps_value[OF Cons.prems]] show ?case
    unfolding input register_all.simps .
qed

lemma register_dom:
  "dom (formValues (register field blank st)) = insert field (dom (formValues st))"
  by (auto simp: register_def setValue_def split: option.splits)

lemma register_all_dom:
  "dom (formValues (register_all inputs st)) = dom (formValues st) \<union> fst ` set inputs"
proof (induction inputs arbitrary: st)
  case Nil
  show ?case by simp
next
  case (Cons input inputs)
  obtain field blank where input: "input = (field, blank)" by (cases input)
  show ?case
    unfolding input register_all.simps Cons.IH register_dom by auto
qed

lemma ReactHookFormExample_fields:
  "defaultValues ReactHookFormExample = [''privacySetting'' \<mapsto> Str ''public'']"
  "errors ReactHookFormExample = Map.empty"
  "network ReactHookFormExample = []"
  "console ReactHookFormExample = []"
  "emailTaken ReactHookFormExample = None"
  "debounced ReactHookFormExample = 0"
  "timers ReactHookFormExample = []"
  by (simp_all add: ReactHookFormExample_def register_all_fields register_all_example_fields
        useForm_def form_state.defs)

section \<open>Properties of submission\<close>

lemma submit_Invalid:
  "validate rt (formValues st) = Invalid es \<Longrightarrow> submit rt axios_post st = st\<lparr> errors := es \<rparr>"
  by (simp add: submit_def handleSubmit_def)

lemma submit_Valid:
  "validate rt (formValues st) = Valid data \<Longrightarrow>
   submit rt axios_post st = onSubmit axios_post data (st\<lparr> errors := Map.empty \<rparr>)"
  by (simp add: submit_def handleSubmit_def)

lemma termsAccepted_false:
  "v ''termsAccepted'' = Some (Bool False) \<Longrightarrow>
   \<exists>es. validate rt v = Invalid es
     \<and> es ''termsAccepted'' = Some (Message ''You must accept the terms and conditions'')"
proof -
  assume f: "v ''termsAccepted'' = Some (Bool False)"
  let ?s = "ZodEffects ZodBoolean (\<lambda>val. val = Some (Bool True))
           (Message ''You must accept the terms and conditions'')"
  have mem: "(''termsAccepted'', ?s) \<in> set (schema rt)" by (simp add: schema_def)
  have iss: "snd (parse rt ?s (v ''termsAccepted'')) = [Message ''You must accept the terms and conditions'']"
    using f by simp
  have "\<exists>(key, s) \<in> set (schema rt). snd (parse rt s (v key)) \<noteq> []"
    using mem iss by (intro bexI[of _ "(''termsAccepted'', ?s)"]) simp_all
  then obtain es where es: "validate rt v = Invalid es"
    unfolding validate_def zodResolver_Invalid_iff[symmetric] by blast
  from zodResolver_errors[OF es[unfolded validate_def] schema_keys_distinct mem] iss
  have "es ''termsAccepted'' = Some (Message ''You must accept the terms and conditions'')" by simp
  with es show ?thesis by blast
qed

lemma validate_alice: "validate stub_runtime alice = Valid alice"
proof -
  have "mergeObjectSync False Map.empty
          (map (\<lambda>(key, s). (key, fst (parse stub_runtime s (alice key)))) (schema stub_runtime))
        = OK alice"
    by (simp add: schema_def schema_date_of_birth_def alice_def checked_def calculateAge_def
          js_ge_def stub_runtime_def stub_newDate_def stub_emailRegex_def)
  then show ?thesis
    by (simp add: validate_def zodResolver_def ZodObject_parse_def)
qed

text \<open>
  Claim C4. When validation of the current values yields \<open>Invalid\<close>, submitting stores
  exactly those field errors and changes nothing else: no request is sent. In particular,
  with \<open>termsAccepted\<close> false the result is \<open>Invalid\<close> with the terms message on
  \<open>termsAccepted\<close>, and no request is sent.
\<close>

theorem invalid_submit_sends_nothing:
  "(\<forall>es. validate rt (formValues st) = Invalid es \<longrightarrow>
      submit rt axios_post st = st\<lparr> errors := es \<rparr>
      \<and> errors (submit rt axios_post st) = es
      \<and> network (submit rt axios_post st) = network st)
   \<and> (formValues st ''termsAccepted'' = Some (Bool False) \<longrightarrow>
        (\<exists>es. validate rt (formValues st) = Invalid es
           \<and> es ''termsAccepted'' = Some (Message ''You must accept the terms and conditions'')
           \<and> errors (submit rt axios_post st) = es
           \<and> network (submit rt axios_post st) = network st))"
proof (intro conjI allI impI)
  fix es assume "validate rt (formValues st) = Invalid es"
  then have s: "submit rt axios_post st = st\<lparr> errors := es \<rparr>" by (rule submit_Invalid)
  show "submit rt axios_post st = st\<lparr> errors := es \<rparr>" by (rule s)
  show "errors (submit rt axios_post st) = es" by (simp add: s)
  show "network (submit rt axios_post st) = network st" by (simp add: s)
next
  assume "formValues st ''termsAccepted'' = Some (Bool False)"
  with termsAccepted_false[of "formValues st" rt] obtain es where
    es: "validate rt (formValues st) = Invalid es"
      "es ''termsAccepted'' = Some (Message ''You must accept the terms and conditions'')"
    by blast
  from submit_Invalid[OF es(1), of axios_post] es
  show "\<exists>es. validate rt (formValues st) = Invalid es
           \<and> es ''termsAccepted'' = Some (Message ''You must accept the terms and conditions'')
           \<and> errors (submit rt axios_post st) = es
           \<and> network (submit rt axios_post st) = network st"
    by auto
qed

theorem invalid_submit_sends_nothing_witness:
  "errors (submit stub_runtime gateway_ok
             (ReactHookFormExample\<lparr> formValues := alice(''termsAccepted'' \<mapsto> Bool False) \<rparr>))
     ''termsAccepted'' = Some (Message ''You must accept the terms and conditions'')
   \<and> network (submit stub_runtime gateway_ok
             (ReactHookFormExample\<lparr> formValues := alice(''termsAccepted'' \<mapsto> Bool False) \<rparr>)) = []"
proof -
  let ?st = "ReactHookFormExample\<lparr> formValues := alice(''termsAccepted'' \<mapsto> Bool False) \<rparr>"
  have box_clear: "formValues ?st ''termsAccepted'' = Some (Bool False)" by simp
  have sent: "network ?st = []"
    by (simp add: ReactHookFormExample_fields)
  from invalid_submit_sends_nothing[of stub_runtime ?st gateway_ok] box_clear
  obtain es where "es ''termsAccepted'' = Some (Message ''You must accept the terms and conditions'')"
    "errors (submit stub_runtime gateway_ok ?st) = es"
    "network (submit stub_runtime gateway_ok ?st) = network ?st"
    by blast
  with sent show ?thesis by simp
qed

text \<open>
  Claim C5. When the values are valid and the gateway rejects the request, the form
  values are as before (no reset), the field errors are empty, the availability state is
  untouched, and the failure is only logged: the console gains the submitted data and the
  error, after the one request that was sent.
\<close>

theorem failed_submit_keeps_values:
  "validate rt (formValues st) = Valid data \<Longrightarrow> axios_post data = Rejected cause \<Longrightarrow>
   formValues (submit rt axios_post st) = formValues st
   \<and> errors (submit rt axios_post st) = Map.empty
   \<and> emailTaken (submit rt axios_post st) = emailTaken st
   \<and> network (submit rt axios_post st) = network st @ [POST data]
   \<and> console (submit rt axios_post st) =
       console st @ [Log ''Form Data after submission:'' (Data data),
                     Log ''Error submitting form:'' (Text cause)]"
  by (simp add: submit_Valid onSubmit_def console_log_def send_def Let_def)

theorem failed_submit_keeps_values_witness:
  "validate stub_runtime alice = Valid alice
   \<and> gateway_down alice = Rejected ''Network Error''
   \<and> formValues (submit stub_runtime gateway_down (ReactHookFormExample\<lparr> formValues := alice \<rparr>)) = alice
   \<and> errors (submit stub_runtime gateway_down (ReactHookFormExample\<lparr> formValues := alice \<rparr>)) = Map.empty
   \<and> network (submit stub_runtime gateway_down (ReactHookFormExample\<lparr> formValues := alice \<rparr>)) = [POST alice]"
  using failed_submit_keeps_values[of stub_runtime "ReactHookFormExample\<lparr> formValues := alice \<rparr>"
      alice gateway_down "''Network Error''"]
  by (simp add: validate_alice gateway_down_def ReactHookFormExample_fields)

lemma validate_alice_privacy:
  "zodResolver stub_runtime (privacySettingsSchema stub_runtime) alice_privacy = Valid alice_privacy"
proof -
  have "mergeObjectSync False Map.empty
          (map (\<lambda>(key, s). (key, fst (parse stub_runtime s (alice_privacy key))))
             (privacySettingsSchema stub_runtime))
        = OK alice_privacy"
    by (simp add: privacySettingsSchema_def privacySettingsSchema_birthDate_def alice_privacy_def
          checked_def js_ge_def Math_abs_def stub_runtime_def stub_newDate_def stub_emailRegex_def)
  then show ?thesis
    by (simp add: zodResolver_def ZodObject_parse_def)
qed

text \<open>
  Claim C3, counterexample. The privacy-settings form is submitted with valid values and
  the gateway reports success (the console shows it). Afterwards the form values are the
  submitted ones, not the defaults: \<open>name\<close> is still Alice, and the defaults have no
  \<open>name\<close>.
\<close>

theorem privacy_form_success_does_not_reset:
  "console (PrivacySettingsForm_submit stub_runtime gateway_ok
              (PrivacySettingsForm\<lparr> formValues := alice_privacy \<rparr>))
     = [Log ''Form submitted successfully'' (Text ''created'')]
   \<and> formValues (PrivacySettingsForm_submit stub_runtime gateway_ok
              (PrivacySettingsForm\<lparr> formValues := alice_privacy \<rparr>)) = alice_privacy
   \<and> formValues (PrivacySettingsForm_submit stub_runtime gateway_ok
              (PrivacySettingsForm\<lparr> formValues := alice_privacy \<rparr>)) ''name'' = Some (Str ''Alice'')
   \<and> defaultValues (PrivacySettingsForm_submit stub_runtime gateway_ok
              (PrivacySettingsForm\<lparr> formValues := alice_privacy \<rparr>)) ''name'' = None
   \<and> formValues (PrivacySettingsForm_submit stub_runtime gateway_ok
              (PrivacySettingsForm\<lparr> formValues := alice_privacy \<rparr>))
       \<noteq> defaultValues (PrivacySettingsForm_submit stub_runtime gateway_ok
              (PrivacySettingsForm\<lparr> formValues := alice_privacy \<rparr>))"
proof -
  let ?st = "PrivacySettingsForm_submit stub_runtime gateway_ok
              (PrivacySettingsForm\<lparr> formValues := alice_privacy \<rparr>)"
  have st: "?st = console_log ''Form submitted successfully'' (Text ''created'')
                    (send (POST alice_privacy)
                       (PrivacySettingsForm\<lparr> formValues := alice_privacy, errors := Map.empty \<rparr>))"
    by (simp add: PrivacySettingsForm_submit_def handleSubmit_def validate_alice_privacy
          PrivacySettingsForm_onSubmit_def gateway_ok_def)
  have c: "console ?st = [Log ''Form submitted successfully'' (Text ''created'')]"
    unfolding st by (simp add: console_log_def send_def PrivacySettingsForm_def useForm_def)
  have f: "formValues ?st = alice_privacy"
    unfolding st by (simp add: console_log_def send_def)
  have n: "formValues ?st ''name'' = Some (Str ''Alice'')"
    unfolding f by (simp add: alice_privacy_def)
  have d: "defaultValues ?st ''name'' = None"
    unfolding st by (simp add: console_log_def send_def PrivacySettingsForm_def useForm_def)
  from n d have "formValues ?st \<noteq> defaultValues ?st" by auto
  with c f n d show ?thesis by simp
qed

text \<open>
  Claim C3, amended. In the registration form a successful submission ends with
  \<open>reset\<close>: the form values are the declared defaults and the field errors are empty,
  as after calling \<open>reset\<close>. The privacy-settings form does not reset: after a
  successful submission its values are the submitted ones, and its field errors are
  empty.
\<close>

theorem successful_submit_resets_registration_form:
  "(\<forall>data response.
      validate rt (formValues st) = Valid data \<and> axios_post data = Resolved response \<longrightarrow>
        submit rt axios_post st =
          reset (console_log ''Response:'' (Text response)
                  (send (POST data)
                    (console_log ''Form Data after submission:'' (Data data)
                      (st\<lparr> errors := Map.empty \<rparr>))))
        \<and> formValues (submit rt axios_post st) = defaultValues st
        \<and> errors (submit rt axios_post st) = Map.empty
        \<and> formValues (submit rt axios_post st) = formValues (reset st)
        \<and> errors (submit rt axios_post st) = errors (reset st))
   \<and> (\<forall>data response.
        zodResolver rt (privacySettingsSchema rt) (formValues pst) = Valid data
        \<and> submitPrivacySettings data = Resolved response \<longrightarrow>
          formValues (PrivacySettingsForm_submit rt submitPrivacySettings pst) = formValues pst
          \<and> errors (PrivacySettingsForm_submit rt submitPrivacySettings pst) = Map.empty)"
  by (simp add: submit_Valid onSubmit_def reset_def console_log_def send_def Let_def
        PrivacySettingsForm_submit_def handleSubmit_def PrivacySettingsForm_onSubmit_def)

theorem successful_submit_resets_registration_form_witness:
  "validate stub_runtime alice = Valid alice \<and> gateway_ok alice = Resolved ''created''
   \<and> formValues (submit stub_runtime gateway_ok (ReactHookFormExample\<lparr> formValues := alice \<rparr>))
       = [''privacySetting'' \<mapsto> Str ''public'']
   \<and> errors (submit stub_runtime gateway_ok (ReactHookFormExample\<lparr> formValues := alice \<rparr>)) = Map.empty
   \<and> formValues (PrivacySettingsForm_submit stub_runtime gateway_ok
                    (PrivacySettingsForm\<lparr> formValues := alice_privacy \<rparr>)) = alice_privacy"
proof -
  let ?st = "ReactHookFormExample\<lparr> formValues := alice \<rparr>"
  let ?pst = "PrivacySettingsForm\<lparr> formValues := alice_privacy \<rparr>"
  note inst = successful_submit_resets_registration_form[of stub_runtime ?st gateway_ok
      ?pst gateway_ok]
  have a: "validate stub_runtime (formValues ?st) = Valid alice \<and> gateway_ok alice = Resolved ''created''"
    by (simp add: validate_alice gateway_ok_def)
  have b: "zodResolver stub_runtime (privacySettingsSchema stub_runtime) (formValues ?pst) = Valid alice_privacy
      \<and> gateway_ok alice_privacy = Resolved ''created''"
    by (simp add: validate_alice_privacy gateway_ok_def)
  have d: "defaultValues ?st = [''privacySetting'' \<mapsto> Str ''public'']"
    by (simp add: ReactHookFormExample_fields)
  from inst a have "formValues (submit stub_runtime gateway_ok ?st) = defaultValues ?st"
    "errors (submit stub_runtime gateway_ok ?st) = Map.empty" by blast+
  moreover from inst b have "formValues (PrivacySettingsForm_submit stub_runtime gateway_ok ?pst)
      = formValues ?pst" by blast
  ultimately show ?thesis using a d by simp
qed

section \<open>Properties of the availability lookup and of the clock\<close>

lemma settled_emailTaken:
  "emailTaken (checkEmailAvailability_settled r st) =
     (case r of Resolved a \<Rightarrow> Some (\<not> a) | Rejected e \<Rightarrow> emailTaken st)"
  by (cases r) (simp_all add: checkEmailAvailability_settled_def console_log_def)

lemma settled_form:
  "formValues (checkEmailAvailability_settled r st) = formValues st"
  "errors (checkEmailAvailability_settled r st) = errors st"
  "network (checkEmailAvailability_settled r st) = network st"
  by (cases r; simp add: checkEmailAvailability_settled_def console_log_def)+

text \<open>
  Claim C7, counterexample. The lookup issued second (number 1) resolves first, with
  \<open>isAvailable = true\<close>; the lookup issued first (number 0) resolves after it, with
  \<open>isAvailable = false\<close>. By issuance order the state should show the e-mail as not
  taken; the handler shows it as taken, the result of the stale response.
\<close>

theorem stale_response_overwrites:
  "emailTaken (settle_all [(1, Resolved True), (0, Resolved False)] ReactHookFormExample) = Some True
   \<and> spec_emailTaken [(1, Resolved True), (0, Resolved False)] = Some False
   \<and> emailTaken (settle_all [(1, Resolved True), (0, Resolved False)] ReactHookFormExample)
       \<noteq> spec_emailTaken [(1, Resolved True), (0, Resolved False)]"
  by (simp add: checkEmailAvailability_settled_def spec_emailTaken_def)

text \<open>
  Claim C7, amended. After any sequence of settlements, \<open>emailTaken\<close> shows the result
  of the lookup that resolved last in completion order, whatever its issuance number, and
  is unchanged when none resolved; a rejected lookup is only logged. The values, the
  field errors and the requests sent are not touched.
\<close>

theorem availability_follows_completion_order:
  "emailTaken (settle_all cs st) =
     (case last_resolved cs of None \<Rightarrow> emailTaken st | Some a \<Rightarrow> Some (\<not> a))
   \<and> formValues (settle_all cs st) = formValues st
   \<and> errors (settle_all cs st) = errors st
   \<and> network (settle_all cs st) = network st"
proof (induction cs arbitrary: st)
  case Nil
  show ?case by simp
next
  case (Cons c cs)
  obtain issued r where c: "c = (issued, r)" by (cases c)
  show ?case
    unfolding c settle_all.simps last_resolved.simps
    by (simp add: Cons.IH settled_emailTaken settled_form split: option.splits promise.splits)
qed

theorem availability_follows_completion_order_witness:
  "emailTaken (settle_all [(1, Resolved True), (0, Rejected ''timeout''), (2, Resolved False)]
                 ReactHookFormExample) = Some True
   \<and> emailTaken (settle_all [(1, Resolved True), (0, Rejected ''timeout'')] ReactHookFormExample)
       = Some False"
  using availability_follows_completion_order[of
      "[(1, Resolved True), (0, Rejected ''timeout''), (2, Resolved False)]" ReactHookFormExample]
    availability_follows_completion_order[of
      "[(1, Resolved True), (0, Rejected ''timeout'')]" ReactHookFormExample]
  by simp

lemma run_string_check_today:
  "run_string_check (rt\<lparr> today := t \<rparr>) x = run_string_check rt x"
proof
  fix c show "run_string_check (rt\<lparr> today := t \<rparr>) x c = run_string_check rt x c"
    by (cases c) simp_all
qed

lemma parse_today: "parse (rt\<lparr> today := t \<rparr>) s d = parse rt s d"
  by (induction s arbitrary: d)
     (simp_all add: run_string_check_today split: option.splits jsval.splits)

lemma merge_pairs_of_results:
  "map (\<lambda>(key, s). (key, fst (parse rt s (v key)))) shape =
   map (\<lambda>(key, r). (key, fst r)) (map (\<lambda>(key, s). (key, parse rt s (v key))) shape)"
  by (induction shape) auto

lemma object_issues_of_results:
  "object_issues rt shape v =
   concat (map (\<lambda>(key, r). map (Pair key) (snd r)) (map (\<lambda>(key, s). (key, parse rt s (v key))) shape))"
  by (induction shape) auto

lemma ZodObject_parse_cong:
  "map (\<lambda>(key, s). (key, parse rt s (v key))) shape =
   map (\<lambda>(key, s). (key, parse rt' s (v key))) shape' \<Longrightarrow>
   ZodObject_parse rt shape v = ZodObject_parse rt' shape' v"
  unfolding ZodObject_parse_def merge_pairs_of_results object_issues_of_results by simp

lemma date_of_birth_parse:
  "parse rt (schema_date_of_birth rt') d =
     (case d of
        Some (Str s) \<Rightarrow>
          (if js_ge (calculateAge rt' s) 18 then (OK d, [])
           else (DIRTY d, [Message ''You must be at least 18 years old'']))
      | _ \<Rightarrow> (INVALID, [invalid_type d]))"
  by (simp add: schema_date_of_birth_def checked_def split: option.splits jsval.splits)

text \<open>
  Claim C9, counterexample. The same form values, with a birth date of 16 June 2006, are
  invalid when validated on 15 June 2024 and valid when validated the next day: the
  result depends on the clock, which is not part of the form values or the schema.
\<close>

theorem validate_differs_across_midnight:
  "validate stub_runtime almost_adult \<noteq> validate (stub_runtime\<lparr> today := next_day \<rparr>) almost_adult"
proof -
  have "\<exists>(key, s) \<in> set (schema stub_runtime). snd (parse stub_runtime s (almost_adult key)) \<noteq> []"
    by (rule bexI[of _ "(''date_of_birth'', schema_date_of_birth stub_runtime)"])
       (simp_all add: schema_def date_of_birth_parse almost_adult_def calculateAge_def js_ge_def
          stub_runtime_def stub_newDate_def)
  then obtain es where inv: "validate stub_runtime almost_adult = Invalid es"
    unfolding validate_def zodResolver_Invalid_iff[symmetric] by blast
  have "object_issues (stub_runtime\<lparr> today := next_day \<rparr>)
          (schema (stub_runtime\<lparr> today := next_day \<rparr>)) almost_adult = []"
    by (simp add: schema_def date_of_birth_parse almost_adult_def alice_def calculateAge_def
          js_ge_def checked_def stub_runtime_def stub_newDate_def stub_emailRegex_def next_day_def)
  from zodResolver_Valid[OF this] obtain data where
    "validate (stub_runtime\<lparr> today := next_day \<rparr>) almost_adult = Valid data"
    by (auto simp: validate_def)
  with inv show ?thesis by simp
qed

text \<open>
  Claim C9, amended. The result of \<open>validate\<close> is determined by the form values, the
  schema and the current date, and the date matters only through the age rule: when the
  rule gives the same verdict on the submitted \<open>date_of_birth\<close> at two dates, the two
  results are equal. In particular two calls on the same date agree.
\<close>

theorem validate_clock_only_through_age_rule:
  assumes "\<forall>birthdate. v ''date_of_birth'' = Some (Str birthdate) \<longrightarrow>
             js_ge (calculateAge (rt\<lparr> today := ta \<rparr>) birthdate) 18
             = js_ge (calculateAge (rt\<lparr> today := tb \<rparr>) birthdate) 18"
  shows "validate (rt\<lparr> today := ta \<rparr>) v = validate (rt\<lparr> today := tb \<rparr>) v"
proof -
  have dob: "parse rt (schema_date_of_birth (rt\<lparr> today := ta \<rparr>)) (v ''date_of_birth'')
           = parse rt (schema_date_of_birth (rt\<lparr> today := tb \<rparr>)) (v ''date_of_birth'')"
    using assms by (simp add: date_of_birth_parse split: option.splits jsval.splits)
  have "ZodObject_parse (rt\<lparr> today := ta \<rparr>) (schema (rt\<lparr> today := ta \<rparr>)) v
      = ZodObject_parse (rt\<lparr> today := tb \<rparr>) (schema (rt\<lparr> today := tb \<rparr>)) v"
    by (rule ZodObject_parse_cong) (simp only: schema_def list.map prod.case parse_today dob)
  then show ?thesis
    by (simp add: validate_def zodResolver_def)
qed

theorem validate_clock_only_through_age_rule_witness:
  "validate (stub_runtime\<lparr> today := next_day \<rparr>) alice = validate stub_runtime alice"
proof -
  have "\<forall>birthdate. alice ''date_of_birth'' = Some (Str birthdate) \<longrightarrow>
          js_ge (calculateAge (stub_runtime\<lparr> today := next_day \<rparr>) birthdate) 18
          = js_ge (calculateAge (stub_runtime\<lparr> today := today stub_runtime \<rparr>) birthdate) 18"
    by (simp add: alice_def calculateAge_def js_ge_def stub_runtime_def stub_newDate_def next_day_def)
  with validate_clock_only_through_age_rule[where v = alice and rt = stub_runtime
      and ta = next_day and tb = "today stub_runtime"]
  show ?thesis by simp
qed

section \<open>Properties of the value record\<close>

lemma registered_inputs_keys: "fst ` set registered_inputs = set (map fst (schema rt))"
  by (simp add: registered_inputs_def schema_def)

lemma ReactHookFormExample_dom:
  "dom (formValues ReactHookFormExample) = set (map fst (schema rt))"
proof -
  have "dom (formValues ReactHookFormExample)
        = {''privacySetting''} \<union> fst ` set registered_inputs"
    by (simp add: ReactHookFormExample_def register_all_dom useForm_def form_state.defs)
  also have "\<dots> = set (map fst (schema rt))"
    unfolding registered_inputs_keys[of rt] by (auto simp: schema_def)
  finally show ?thesis .
qed

lemma render_dom:
  "dom (formValues (render st)) = dom (formValues st) \<union> fst ` set registered_inputs"
  by (simp add: render_def register_all_dom)

lemma render_defaultValues: "defaultValues (render st) = defaultValues st"
  by (simp add: render_def register_all_fields)

lemma submit_formValues:
  "formValues (submit rt axios_post st) = formValues st
   \<or> formValues (submit rt axios_post st) = defaultValues st"
  by (cases "validate rt (formValues st)")
     (auto simp: submit_def handleSubmit_def onSubmit_def reset_def console_log_def send_def Let_def
        split: promise.splits)

lemma submit_defaultValues: "defaultValues (submit rt axios_post st) = defaultValues st"
  by (cases "validate rt (formValues st)")
     (auto simp: submit_def handleSubmit_def onSubmit_def reset_def console_log_def send_def Let_def
        split: promise.splits)

lemma apply_operation_defaultValues:
  "defaultValues (apply_operation rt axios_post op st) = defaultValues st"
  by (cases op) (simp_all add: setValue_def reset_def submit_defaultValues render_defaultValues)

lemma apply_operation_keeps_entries:
  assumes "set (map fst (schema rt)) \<subseteq> dom (formValues st)"
  shows "set (map fst (schema rt)) \<subseteq> dom (formValues (apply_operation rt axios_post op st))"
proof (cases op)
  case (SetField field v)
  with assms show ?thesis by (auto simp: setValue_def)
next
  case HandleSubmit
  then show ?thesis by (simp add: render_dom registered_inputs_keys[of rt])
next
  case Reset
  then show ?thesis by (simp add: render_dom registered_inputs_keys[of rt])
qed

lemma apply_operation_declared_only:
  assumes "dom (defaultValues st) \<subseteq> set (map fst (schema rt))"
    and "dom (formValues st) \<subseteq> set (map fst (schema rt))"
    and "sets_declared_field rt op"
  shows "dom (formValues (apply_operation rt axios_post op st)) \<subseteq> set (map fst (schema rt))"
proof (cases op)
  case (SetField field v)
  with assms show ?thesis by (auto simp: setValue_def)
next
  case HandleSubmit
  with assms submit_formValues[of rt axios_post st] show ?thesis
    by (auto simp: render_dom registered_inputs_keys[of rt])
next
  case Reset
  with assms show ?thesis
    by (auto simp: render_dom registered_inputs_keys[of rt] reset_def)
qed

lemma run_operations_defaultValues:
  "defaultValues (run_operations rt axios_post ops st) = defaultValues st"
  by (induction ops arbitrary: st) (simp_all add: apply_operation_defaultValues)

lemma run_operations_keeps_entries:
  "set (map fst (schema rt)) \<subseteq> dom (formValues st) \<Longrightarrow>
   set (map fst (schema rt)) \<subseteq> dom (formValues (run_operations rt axios_post ops st))"
proof (induction ops arbitrary: st)
  case Nil
  then show ?case by simp
next
  case (Cons op ops)
  from Cons.IH[OF apply_operation_keeps_entries[OF Cons.prems]] show ?case by simp
qed

lemma run_operations_declared_only:
  "dom (defaultValues st) \<subseteq> set (map fst (schema rt)) \<Longrightarrow>
   dom (formValues st) \<subseteq> set (map fst (schema rt)) \<Longrightarrow>
   list_all (sets_declared_field rt) ops \<Longrightarrow>
   dom (formValues (run_operations rt axios_post ops st)) \<subseteq> set (map fst (schema rt))"
proof (induction ops arbitrary: st)
  case Nil
  then show ?case by simp
next
  case (Cons op ops)
  from Cons.prems have op: "sets_declared_field rt op" and ops: "list_all (sets_declared_field rt) ops"
    by simp_all
  have step: "dom (formValues (apply_operation rt axios_post op st)) \<subseteq> set (map fst (schema rt))"
    by (rule apply_operation_declared_only[OF Cons.prems(1,2) op])
  have dflt: "dom (defaultValues (apply_operation rt axios_post op st)) \<subseteq> set (map fst (schema rt))"
    using Cons.prems(1) by (simp add: apply_operation_defaultValues)
  from Cons.IH[OF dflt step ops] show ?case by simp
qed

text \<open>
  Claim C8. Once the form is mounted, the value record has an entry for each field the
  schema declares and for no other key. After any sequence of operations (setting a
  field, submitting, resetting) every declared field still has its entry, and when each
  field that was set is a declared one, the keys of the record are exactly the declared
  fields.
\<close>

theorem formValues_entries:
  "dom (formValues ReactHookFormExample) = set (map fst (schema rt))
   \<and> set (map fst (schema rt))
        \<subseteq> dom (formValues (run_operations rt axios_post ops ReactHookFormExample))
   \<and> (list_all (sets_declared_field rt) ops \<longrightarrow>
        dom (formValues (run_operations rt axios_post ops ReactHookFormExample))
          = set (map fst (schema rt)))"
proof (intro conjI impI)
  show init: "dom (formValues ReactHookFormExample) = set (map fst (schema rt))"
    by (rule ReactHookFormExample_dom)
  show present: "set (map fst (schema rt))
        \<subseteq> dom (formValues (run_operations rt axios_post ops ReactHookFormExample))"
    by (rule run_operations_keeps_entries) (simp add: init)
  assume "list_all (sets_declared_field rt) ops"
  then have "dom (formValues (run_operations rt axios_post ops ReactHookFormExample))
      \<subseteq> set (map fst (schema rt))"
    by (intro run_operations_declared_only) (simp_all add: init ReactHookFormExample_fields schema_def)
  with present show "dom (formValues (run_operations rt axios_post ops ReactHookFormExample))
          = set (map fst (schema rt))" by (intro equalityI)
qed

theorem formValues_entries_witness:
  "list_all (sets_declared_field stub_runtime)
     [SetField ''name'' (Str ''Alice''), HandleSubmit, Reset, SetField ''age'' (Num (Finite 30))]
   \<and> dom (formValues (run_operations stub_runtime gateway_ok
            [SetField ''name'' (Str ''Alice''), HandleSubmit, Reset, SetField ''age'' (Num (Finite 30))]
            ReactHookFormExample))
       = {''name'', ''email'', ''date_of_birth'', ''age'', ''gender'', ''termsAccepted'',
          ''privacyPolicyAccepted'', ''privacySetting''}"
proof -
  let ?ops = "[SetField ''name'' (Str ''Alice''), HandleSubmit, Reset, SetField ''age'' (Num (Finite 30))]"
  have ok: "list_all (sets_declared_field stub_runtime) ?ops"
    by (simp add: schema_def)
  note inst = formValues_entries[of stub_runtime gateway_ok ?ops,
      THEN conjunct2, THEN conjunct2, rule_format, OF ok]
  have keys: "set (map fst (schema stub_runtime)) =
      {''name'', ''email'', ''date_of_birth'', ''age'', ''gender'', ''termsAccepted'',
       ''privacyPolicyAccepted'', ''privacySetting''}"
    by (simp add: schema_def)
  from ok inst[unfolded keys] show ?thesis by (intro conjI)
qed

section \<open>Properties of the debounced lookup\<close>

text \<open>
  Claim C6, evaluated. The user types \<open>a\<close> at time 0; its lookup leaves at 1000. The
  user types \<open>ab\<close> at 1050. At 1100 the lookup for \<open>a\<close> resolves, \<open>emailTaken\<close>
  changes and the component renders again, which builds a new debounced function. The user
  types \<open>abc\<close> at 1500, within a second of \<open>ab\<close>. The two calls reached two
  different debounced functions, so both fire: lookups leave for \<open>ab\<close> and for
  \<open>abc\<close>, not only for the most recent value.
\<close>

theorem debounce_lost_across_render:
  "network (run_events
      [(0, Change ''a''), (1050, Change ''ab''), (1100, Settled (Resolved True)),
       (1500, Change ''abc''), (3000, Idle)] ReactHookFormExample)
   = [GET ''a'', GET ''ab'', GET ''abc'']"
  by (simp add: ReactHookFormExample_fields register_all_fields register_all_example_fields handleEmailChange_def
        checkEmailAvailability_def setValue_def run_timers_def checkEmailAvailability_request_def
        send_def checkEmailAvailability_settled_def render_def Let_def)

text \<open>
  Debouncing within one render. From a state with no pending call, two changes of the
  e-mail field less than a second apart, with no render in between, followed by a second
  of quiet, send exactly one lookup, for the second value.
\<close>

theorem debounce_same_render:
  "timers st = [] \<Longrightarrow> t1 \<le> t2 \<Longrightarrow> t2 < t1 + 1000 \<Longrightarrow> t2 + 1000 \<le> t \<Longrightarrow>
   network (run_events [(t1, Change v1), (t2, Change v2), (t, Idle)] st) = network st @ [GET v2]
   \<and> timers (run_events [(t1, Change v1), (t2, Change v2), (t, Idle)] st) = []
   \<and> formValues (run_events [(t1, Change v1), (t2, Change v2), (t, Idle)] st) ''email'' = Some (Str v2)"
  by (simp add: handleEmailChange_def checkEmailAvailability_def setValue_def run_timers_def
        checkEmailAvailability_request_def send_def Let_def)

theorem debounce_same_render_witness:
  "network (run_events [(0, Change ''a''), (400, Change ''ab''), (1400, Idle)] ReactHookFormExample)
   = [GET ''ab'']"
  using debounce_same_render[of ReactHookFormExample 0 400 1400 "''a''" "''ab''"]
  by (simp add: ReactHookFormExample_fields)

section \<open>Properties of the validated record\<close>

lemma parse_keeps_value:
  "no_default s \<Longrightarrow> parse rt s d = (r, issues) \<Longrightarrow> r = OK x \<or> r = DIRTY x \<Longrightarrow> x = d"
proof (induction s arbitrary: d r issues)
  case (ZodEffects inner refinement m)
  obtain r' issues' where inner: "parse rt inner d = (r', issues')"
    by (cases "parse rt inner d")
  from ZodEffects.prems inner have "r' = OK x \<or> r' = DIRTY x"
    by (cases r') (auto split: if_splits)
  with ZodEffects.IH[OF _ inner] ZodEffects.prems(1) show ?case by simp
qed (auto simp: checked_def split: option.splits jsval.splits if_splits)

lemma mergeObjectSync_OK_value:
  "mergeObjectSync b f (map (\<lambda>(key, s). (key, fst (parse rt s (v key)))) shape) = OK obj \<Longrightarrow>
   list_all (\<lambda>(key, s). no_default s) shape \<Longrightarrow>
   obj = (\<lambda>k. if k \<in> fst ` set shape then v k else f k)"
proof (induction shape arbitrary: b f)
  case Nil
  then show ?case by (auto split: if_splits)
next
  case (Cons p shape)
  obtain key s where p: "p = (key, s)" by (cases p)
  obtain r issues where r: "parse rt s (v key) = (r, issues)" by (cases "parse rt s (v key)")
  from Cons.prems p have nd: "no_default s" "list_all (\<lambda>(key, s). no_default s) shape" by auto
  show ?case
  proof (cases r)
    case (OK x)
    with parse_keeps_value[OF nd(1) r, of x] have x: "x = v key" by simp
    from Cons.prems(1) p r OK x
    have "mergeObjectSync b (f(key := v key))
            (map (\<lambda>(key, s). (key, fst (parse rt s (v key)))) shape) = OK obj" by simp
    from Cons.IH[OF this nd(2)] p show ?thesis by (auto simp: fun_eq_iff)
  next
    case (DIRTY x)
    with parse_keeps_value[OF nd(1) r, of x] have x: "x = v key" by simp
    from Cons.prems(1) p r DIRTY x
    have "mergeObjectSync True (f(key := v key))
            (map (\<lambda>(key, s). (key, fst (parse rt s (v key)))) shape) = OK obj" by simp
    from Cons.IH[OF this nd(2)] p show ?thesis by (auto simp: fun_eq_iff)
  next
    case INVALID
    with Cons.prems(1) p r show ?thesis by simp
  qed
qed

lemma ZodObject_parse_values_cong:
  "map (\<lambda>(key, s). (key, parse rt s (v key))) shape =
   map (\<lambda>(key, s). (key, parse rt s (v' key))) shape \<Longrightarrow>
   ZodObject_parse rt shape v = ZodObject_parse rt shape v'"
proof -
  assume eq: "map (\<lambda>(key, s). (key, parse rt s (v key))) shape =
              map (\<lambda>(key, s). (key, parse rt s (v' key))) shape"
  show ?thesis
    unfolding ZodObject_parse_def merge_pairs_of_results object_issues_of_results eq
    by (rule refl)
qed

lemma zodResolver_Valid_data:
  assumes "zodResolver rt shape v = Valid data" and "list_all (\<lambda>(key, s). no_default s) shape"
  shows "data = (\<lambda>k. if k \<in> fst ` set shape then v k else None)"
proof -
  from assms(1) have "fst (ZodObject_parse rt shape v) = OK data"
    by (auto simp: zodResolver_def split: prod.splits parse_return.splits)
  then have "mergeObjectSync False Map.empty
      (map (\<lambda>(key, s). (key, fst (parse rt s (v key)))) shape) = OK data"
    by (simp add: ZodObject_parse_def)
  from mergeObjectSync_OK_value[OF this assms(2)] show ?thesis by simp
qed

text \<open>
  The validated record. When \<open>validate\<close> returns \<open>Valid data\<close>, the record agrees with
  the input on every declared field and has no other key, and validating it again (with
  the same runtime) returns the same \<open>Valid data\<close>.
\<close>

theorem valid_record_validates_to_itself:
  "validate rt v = Valid data \<Longrightarrow>
   validate rt data = Valid data
   \<and> (\<forall>key \<in> set (map fst (schema rt)). data key = v key)
   \<and> dom data \<subseteq> set (map fst (schema rt))"
proof -
  assume valid: "validate rt v = Valid data"
  have nd: "list_all (\<lambda>(key, s). no_default s) (schema rt)"
    by (simp add: schema_def schema_date_of_birth_def)
  from zodResolver_Valid_data[OF valid[unfolded validate_def] nd]
  have data: "data = (\<lambda>k. if k \<in> fst ` set (schema rt) then v k else None)" .
  have "map (\<lambda>(key, s). (key, parse rt s (data key))) (schema rt) =
        map (\<lambda>(key, s). (key, parse rt s (v key))) (schema rt)"
    by (rule map_cong) (force simp: data)+
  then have "ZodObject_parse rt (schema rt) data = ZodObject_parse rt (schema rt) v"
    by (rule ZodObject_parse_values_cong)
  with valid have "validate rt data = Valid data"
    by (simp add: validate_def zodResolver_def)
  moreover have "\<forall>key \<in> set (map fst (schema rt)). data key = v key"
    by (simp add: data)
  moreover have "dom data \<subseteq> set (map fst (schema rt))"
    by (auto simp: data split: if_splits)
  ultimately show ?thesis by simp
qed

theorem valid_record_validates_to_itself_witness:
  "validate stub_runtime alice = Valid alice
   \<and> validate stub_runtime (alice(''nickname'' \<mapsto> Str ''Al'')) = Valid alice"
proof -
  let ?v = "alice(''nickname'' \<mapsto> Str ''Al'')"
  have same: "map (\<lambda>(key, s). (key, parse stub_runtime s (?v key))) (schema stub_runtime) =
        map (\<lambda>(key, s). (key, parse stub_runtime s (alice key))) (schema stub_runtime)"
    by (rule map_cong) (auto simp: schema_def)
  have "validate stub_runtime ?v = validate stub_runtime alice"
    by (simp only: validate_def zodResolver_def ZodObject_parse_values_cong[OF same])
  from trans[OF this validate_alice] have v: "validate stub_runtime ?v = Valid alice" .
  from valid_record_validates_to_itself[OF v] v show ?thesis by simp
qed

section \<open>Properties of numbers and of the counter store\<close>

lemma round_half_even_of_int: "round_half_even (of_int j) = j"
  by (simp add: round_half_even_def)

lemma exponent_of_int: "m \<noteq> 0 \<Longrightarrow> exponent (of_int m) = bitlen \<bar>m\<bar> - 1"
proof -
  assume "m \<noteq> 0"
  then have one: "1 \<le> \<bar>m\<bar>" by simp
  have abs: "\<bar>of_int m :: rat\<bar> = of_int \<bar>m\<bar>" by simp
  show ?thesis
    unfolding exponent_def abs using one by (simp del: of_int_abs)
qed

lemma round_double_of_int:
  assumes "m \<noteq> 0" and "\<bar>m\<bar> \<le> 2 ^ 53"
  shows "round_double (of_int m) = Finite (of_int m)"
proof -
  define b where "b = bitlen \<bar>m\<bar>"
  from assms(1) have pos: "0 < \<bar>m\<bar>" by simp
  have b1: "1 \<le> b"
    unfolding b_def using pos by (simp add: bitlen_ge_iff_power)
  have b54: "b \<le> 54"
    unfolding b_def using assms(2) by (simp add: bitlen_le_iff_power)
  have e: "max (exponent (of_int m)) (- 1022) = b - 1"
    using b1 by (simp add: exponent_of_int[OF assms(1)] b_def)
  have small: "\<bar>of_int m :: rat\<bar> < 2 ^ 1024"
  proof -
    have "\<bar>of_int m :: rat\<bar> = of_int \<bar>m\<bar>" by simp
    also have "\<dots> \<le> of_int (2 ^ 53)" using assms(2) by (simp only: of_int_le_iff)
    also have "\<dots> < (2::rat) ^ 1024" by simp
    finally show ?thesis .
  qed
  have nz: "(of_int m :: rat) \<noteq> 0" using assms(1) by simp
  have v: "of_int (round_half_even (of_int m / two_pow (b - 1 - 52))) * two_pow (b - 1 - 52)
           = (of_int m :: rat)"
  proof (cases "b \<le> 53")
    case True
    define n where "n = nat (53 - b)"
    have tp: "two_pow (b - 1 - 52) = 1 / 2 ^ n"
    proof (cases "b = 53")
      case True
      then show ?thesis by (simp add: two_pow_def n_def)
    next
      case False
      with \<open>b \<le> 53\<close> have "b - 1 - 52 < 0" by simp
      moreover have "nat (- (b - 1 - 52)) = n" by (simp add: n_def)
      ultimately show ?thesis by (simp add: two_pow_def)
    qed
    have "(of_int m :: rat) / (1 / 2 ^ n) = of_int (m * 2 ^ n)" by simp
    then show ?thesis by (simp only: tp round_half_even_of_int) simp
  next
    case False
    with b54 have b: "b = 54" by simp
    from bitlen_bounds[OF pos] have "2 ^ nat (b - 1) \<le> \<bar>m\<bar>" by (simp add: b_def)
    with b assms(2) have "\<bar>m\<bar> = 2 ^ 53" by simp
    then consider "m = 2 ^ 53" | "m = - (2 ^ 53)" by linarith
    then show ?thesis
    proof cases
      case 1
      have "(of_int m :: rat) / two_pow (b - 1 - 52) = of_int (2 ^ 52)"
        by (simp add: 1 b two_pow_def)
      then show ?thesis by (simp only: round_half_even_of_int) (simp add: 1 b two_pow_def)
    next
      case 2
      have "(of_int m :: rat) / two_pow (b - 1 - 52) = of_int (- (2 ^ 52))"
        by (simp add: 2 b two_pow_def)
      then show ?thesis by (simp only: round_half_even_of_int) (simp add: 2 b two_pow_def)
    qed
  qed
  show ?thesis
    unfolding round_double_def Let_def e v using small nz by simp
qed

lemma js_add_int:
  "\<bar>n + k\<bar> \<le> 2 ^ 53 \<Longrightarrow> js_add (Finite (of_int n)) (Finite (of_int k)) = Finite (of_int (n + k))"
proof (cases "n + k = 0")
  case True
  then have "(of_int n :: rat) + of_int k = 0" by (simp flip: of_int_add)
  then show ?thesis using True by simp
next
  case False
  assume "\<bar>n + k\<bar> \<le> 2 ^ 53"
  from round_double_of_int[OF False this] False show ?thesis
    by (simp flip: of_int_add)
qed

lemma js_sub_int:
  "\<bar>n - k\<bar> \<le> 2 ^ 53 \<Longrightarrow> k \<noteq> 0 \<Longrightarrow>
   js_sub (Finite (of_int n)) (Finite (of_int k)) = Finite (of_int (n - k))"
  using js_add_int[of n "- k"] by (simp add: js_sub_def)

lemma exponent_above: "exponent (2 ^ 53 + 1) = 53"
proof -
  have "exponent (of_int (2 ^ 53 + 1)) = bitlen \<bar>2 ^ 53 + 1\<bar> - 1"
    by (rule exponent_of_int) simp
  moreover have "bitlen (2 ^ 53 + 1) = 53 + 1"
    using bitlen_twopow_add_eq[of 1 53] by simp
  ultimately show ?thesis by simp
qed

lemma floor_half_above: "\<lfloor>(9007199254740993::rat) / 2\<rfloor> = 4503599627370496"
  by (simp add: floor_eq_iff)

lemma round_above: "round_double (2 ^ 53 + 1) = Finite (2 ^ 53)"
  unfolding round_double_def Let_def exponent_above
  by (simp add: two_pow_def round_half_even_def Let_def floor_half_above)

lemma tenth_round_trip:
  "js_sub (js_add (Finite (3602879701896397 / 36028797018963968)) (Finite 1)) (Finite 1)
   = Finite (225179981368525 / 2251799813685248)"
  by code_simp

lemma increment_fields:
  "count (increment s) = js_add (count s) (Finite 1)" "text' (increment s) = text' s"
  by (simp_all add: increment_def set_state_def merge_patch_def)

lemma decrement_fields:
  "count (decrement s) = js_sub (count s) (Finite 1)" "text' (decrement s) = text' s"
  by (simp_all add: decrement_def set_state_def merge_patch_def)

lemma setText_fields: "count (setText t s) = count s" "text' (setText t s) = t"
  by (simp_all add: setText_def set_state_def merge_patch_def)

lemma increment_safe:
  "count s = Finite (of_int n) \<Longrightarrow> \<bar>n + 1\<bar> \<le> 2 ^ 53 \<Longrightarrow>
   count (increment s) = Finite (of_int (n + 1))"
  using js_add_int[of n 1] by (simp add: increment_fields)

lemma decrement_safe:
  "count s = Finite (of_int n) \<Longrightarrow> \<bar>n - 1\<bar> \<le> 2 ^ 53 \<Longrightarrow>
   count (decrement s) = Finite (of_int (n - 1))"
  using js_sub_int[of n 1] by (simp add: decrement_fields)

lemma run_actions_safe:
  "count s = Finite (of_int n) \<Longrightarrow> \<bar>n\<bar> + int (length acts) \<le> 2 ^ 53 \<Longrightarrow>
   \<exists>m. count (run_actions acts s) = Finite (of_int m) \<and> \<bar>m\<bar> \<le> \<bar>n\<bar> + int (length acts)"
proof (induction acts arbitrary: s n)
  case Nil
  then show ?case by auto
next
  case (Cons a acts)
  have "\<exists>k. count (apply_action a s) = Finite (of_int k) \<and> \<bar>k\<bar> \<le> \<bar>n\<bar> + 1"
  proof (cases a)
    case Increment
    from Cons.prems have "\<bar>n + 1\<bar> \<le> 2 ^ 53" by simp
    from increment_safe[OF Cons.prems(1) this] Increment show ?thesis
      by (intro exI[of _ "n + 1"]) simp
  next
    case Decrement
    from Cons.prems have "\<bar>n - 1\<bar> \<le> 2 ^ 53" by simp
    from decrement_safe[OF Cons.prems(1) this] Decrement show ?thesis
      by (intro exI[of _ "n - 1"]) simp
  next
    case (SetText t)
    with Cons.prems(1) show ?thesis
      by (intro exI[of _ n]) (simp add: setText_fields)
  qed
  then obtain k where k: "count (apply_action a s) = Finite (of_int k)" "\<bar>k\<bar> \<le> \<bar>n\<bar> + 1"
    by blast
  with Cons.prems(2) have "\<bar>k\<bar> + int (length acts) \<le> 2 ^ 53" by simp
  from Cons.IH[OF k(1) this] obtain m where
    "count (run_actions acts (apply_action a s)) = Finite (of_int m)"
    "\<bar>m\<bar> \<le> \<bar>k\<bar> + int (length acts)" by blast
  with k(2) show ?case by (intro exI[of _ m]) simp
qed

text \<open>
  Claim C10, counterexample. At a count of \<open>2 ^ 53\<close> adding one is not exact: the sum
  rounds back to \<open>2 ^ 53\<close>, so increment followed by decrement leaves \<open>2 ^ 53 - 1\<close>,
  not the count the store had. A count that is not an integer does not come back either
  (the double nearest to one tenth returns as a different double), and negative zero
  comes back as positive zero.
\<close>

theorem increment_decrement_not_inverse:
  "decrement (increment \<lparr> count = Finite (2 ^ 53), text' = ''abc'' \<rparr>)
     = \<lparr> count = Finite (2 ^ 53 - 1), text' = ''abc'' \<rparr>
   \<and> decrement (increment \<lparr> count = Finite (2 ^ 53), text' = ''abc'' \<rparr>)
     \<noteq> \<lparr> count = Finite (2 ^ 53), text' = ''abc'' \<rparr>
   \<and> count (decrement (increment \<lparr> count = Finite (3602879701896397 / 36028797018963968), text' = ''abc'' \<rparr>))
     = Finite (225179981368525 / 2251799813685248)
   \<and> count (decrement (increment \<lparr> count = NegZero, text' = ''abc'' \<rparr>)) = Finite 0"
proof -
  let ?s = "\<lparr> count = Finite (2 ^ 53), text' = ''abc'' \<rparr>"
  have up: "count (increment ?s) = Finite (2 ^ 53)"
    using round_above by (simp add: increment_fields)
  have "js_sub (Finite (of_int (2 ^ 53))) (Finite (of_int 1)) = Finite (of_int (2 ^ 53 - 1))"
    by (rule js_sub_int) simp_all
  then have down: "js_sub (Finite (2 ^ 53)) (Finite 1) = Finite (2 ^ 53 - 1)" by simp
  have c: "count (decrement (increment ?s)) = Finite (2 ^ 53 - 1)"
    by (simp only: decrement_fields up down)
  have t: "text' (decrement (increment ?s)) = ''abc''"
    by (simp add: decrement_fields increment_fields)
  have eq: "decrement (increment ?s) = \<lparr> count = Finite (2 ^ 53 - 1), text' = ''abc'' \<rparr>"
    using c t by (cases "decrement (increment ?s)") simp
  have ne: "decrement (increment ?s) \<noteq> ?s"
    unfolding eq by simp
  have tenth: "count (decrement (increment \<lparr> count = Finite (3602879701896397 / 36028797018963968), text' = ''abc'' \<rparr>))
     = Finite (225179981368525 / 2251799813685248)"
    by (simp only: decrement_fields increment_fields store.simps tenth_round_trip)
  have nz: "count (decrement (increment \<lparr> count = NegZero, text' = ''abc'' \<rparr>)) = Finite 0"
    by (simp add: decrement_fields increment_fields js_sub_def)
  from eq ne tenth nz show ?thesis by (intro conjI)
qed

text \<open>
  Claim C10, amended. In every state whose count is an integer of magnitude below
  \<open>2 ^ 53\<close>, increment followed by decrement gives the state back, and so does decrement
  followed by increment. In every state both leave the text alone. Every state reached
  from the initial store by fewer than \<open>2 ^ 53\<close> actions has such a count.
\<close>

theorem increment_decrement_inverse:
  "(\<forall>n. count s = Finite (of_int n) \<and> \<bar>n\<bar> < 2 ^ 53 \<longrightarrow>
      decrement (increment s) = s \<and> increment (decrement s) = s)
   \<and> text' (increment s) = text' s \<and> text' (decrement s) = text' s
   \<and> (int (length acts) < 2 ^ 53 \<longrightarrow>
        (\<exists>m. count (run_actions acts useStore) = Finite (of_int m) \<and> \<bar>m\<bar> < 2 ^ 53))"
proof (intro conjI allI impI)
  fix n assume a: "count s = Finite (of_int n) \<and> \<bar>n\<bar> < 2 ^ 53"
  then have c: "count s = Finite (of_int n)" and lt: "\<bar>n\<bar> < 2 ^ 53" by simp_all
  from lt have up: "\<bar>n + 1\<bar> \<le> 2 ^ 53" by simp
  from lt have down: "\<bar>n - 1\<bar> \<le> 2 ^ 53" by simp
  from lt have self: "\<bar>n\<bar> \<le> 2 ^ 53" by simp
  have "count (decrement (increment s)) = Finite (of_int n)"
    using decrement_safe[OF increment_safe[OF c up]] self by simp
  then show "decrement (increment s) = s"
    using c by (intro store.equality) (simp_all add: decrement_fields increment_fields)
  have "count (increment (decrement s)) = Finite (of_int n)"
    using increment_safe[OF decrement_safe[OF c down]] self by simp
  then show "increment (decrement s) = s"
    using c by (intro store.equality) (simp_all add: decrement_fields increment_fields)
next
  show "text' (increment s) = text' s" by (simp add: increment_fields)
  show "text' (decrement s) = text' s" by (simp add: decrement_fields)
next
  assume len: "int (length acts) < 2 ^ 53"
  have "count useStore = Finite (of_int 0)" by (simp add: useStore_def)
  from run_actions_safe[OF this, of acts] len obtain m where
    "count (run_actions acts useStore) = Finite (of_int m)" "\<bar>m\<bar> \<le> int (length acts)"
    by auto
  with len show "\<exists>m. count (run_actions acts useStore) = Finite (of_int m) \<and> \<bar>m\<bar> < 2 ^ 53"
    by (intro exI[of _ m]) simp
qed

theorem increment_decrement_inverse_witness:
  "decrement (increment (run_actions [Increment, SetText ''hi'', Increment, Decrement, Decrement, Decrement] useStore))
     = run_actions [Increment, SetText ''hi'', Increment, Decrement, Decrement, Decrement] useStore
   \<and> decrement (increment \<lparr> count = Finite (2 ^ 53 - 1), text' = ''abc'' \<rparr>)
     = \<lparr> count = Finite (2 ^ 53 - 1), text' = ''abc'' \<rparr>"
proof -
  let ?acts = "[Increment, SetText ''hi'', Increment, Decrement, Decrement, Decrement]"
  note inst = increment_decrement_inverse[of "run_actions ?acts useStore" ?acts]
  have "int (length ?acts) < 2 ^ 53" by simp
  with inst obtain m where m: "count (run_actions ?acts useStore) = Finite (of_int m)" "\<bar>m\<bar> < 2 ^ 53"
    by blast
  with inst have first: "decrement (increment (run_actions ?acts useStore)) = run_actions ?acts useStore"
    by blast
  let ?s = "\<lparr> count = Finite (2 ^ 53 - 1), text' = ''abc'' \<rparr>"
  have "count ?s = Finite (of_int (2 ^ 53 - 1)) \<and> \<bar>2 ^ 53 - 1 :: int\<bar> < 2 ^ 53" by simp
  with increment_decrement_inverse[of ?s "[]"] have second: "decrement (increment ?s) = ?s"
    by blast
  from first second show ?thesis by (intro conjI)
qed

end
